theory Spec2Isabelle
  imports Main
begin

section \<open>Python values and library calls used by main.py\<close>

text \<open>
  A colour is the tuple \<open>(r, g, b)\<close> of Python ints that \<open>pick_under_cursor\<close> builds from
  the three components returned by \<open>pyautogui.pixel\<close>. Python compares tuples componentwise,
  which is HOL equality on triples.
\<close>

type_synonym rgb = "int \<times> int \<times> int"

text \<open>The pixel sampler returns components in \<open>0..255\<close>.\<close>

definition valid_rgb :: "rgb \<Rightarrow> bool" where
  "valid_rgb c = (case c of (r, g, b) \<Rightarrow>
     0 \<le> r \<and> r < 256 \<and> 0 \<le> g \<and> g < 256 \<and> 0 \<le> b \<and> b < 256)"

text \<open>
  Exceptions. \<open>ValueError\<close> and \<open>IndexError\<close> are raised by the Python built-ins used in
  \<open>on_history_clicked\<close>, \<open>KeyError\<close> by \<open>keyboard.remove_hotkey\<close> on an unknown handler;
  \<open>External msg\<close> stands for whatever \<open>pyautogui\<close>, \<open>pyperclip\<close> or \<open>keyboard\<close> raise.
\<close>

datatype py_exception = ValueError | IndexError | KeyError | External string

subsection \<open>Number formatting\<close>

definition hex_digit :: "nat \<Rightarrow> char" where
  "hex_digit d = ''0123456789ABCDEF'' ! d"

fun hex_nat :: "nat \<Rightarrow> string" where
  "hex_nat n = (if n < 16 then [hex_digit n] else hex_nat (n div 16) @ [hex_digit (n mod 16)])"

declare hex_nat.simps [simp del]

text \<open>
  \<open>"{:02X}".format(v)\<close>: upper-case hexadecimal, zero-padded to width 2; for a negative
  number the sign counts towards the width.
\<close>

definition format_02X :: "int \<Rightarrow> string" where
  "format_02X v =
     (if v < 0 then CHR ''-'' # hex_nat (nat (- v))
      else (let s = hex_nat (nat v) in if length s < 2 then CHR ''0'' # s else s))"

text \<open>\<open>rgb_to_hex(r, g, b)\<close>, line 27.\<close>

definition rgb_to_hex :: "int \<Rightarrow> int \<Rightarrow> int \<Rightarrow> string" where
  "rgb_to_hex r g b = CHR ''#'' # format_02X r @ format_02X g @ format_02X b"

text \<open>\<open>rgb_to_hex(*rgb)\<close>.\<close>

definition rgb_to_hex_tuple :: "rgb \<Rightarrow> string" where
  "rgb_to_hex_tuple c = (case c of (r, g, b) \<Rightarrow> rgb_to_hex r g b)"

definition dec_digit :: "nat \<Rightarrow> char" where
  "dec_digit d = ''0123456789'' ! d"

fun dec_nat :: "nat \<Rightarrow> string" where
  "dec_nat n = (if n < 10 then [dec_digit n] else dec_nat (n div 10) @ [dec_digit (n mod 10)])"

declare dec_nat.simps [simp del]

text \<open>\<open>str(v)\<close> for an int, and \<open>str(rgb)\<close> for a 3-tuple of ints: \<open>(r, g, b)\<close>.\<close>

definition str_int :: "int \<Rightarrow> string" where
  "str_int v = (if v < 0 then CHR ''-'' # dec_nat (nat (- v)) else dec_nat (nat v))"

definition str_rgb :: "rgb \<Rightarrow> string" where
  "str_rgb c = (case c of (r, g, b) \<Rightarrow>
     ''('' @ str_int r @ '', '' @ str_int g @ '', '' @ str_int b @ '')'')"

subsection \<open>String methods\<close>

text \<open>\<open>str.isspace\<close> on the characters below 256.\<close>

definition is_space :: "char \<Rightarrow> bool" where
  "is_space c = (of_char c \<in> {9, 10, 11, 12, 13, 28, 29, 30, 31, 32, 133, 160 :: nat})"

text \<open>
  \<open>txt.split()\<close>: the maximal runs of non-whitespace characters, in order. The first
  argument is the word being read.
\<close>

fun split_acc :: "string \<Rightarrow> string \<Rightarrow> string list" where
  "split_acc acc [] = (if acc = [] then [] else [acc])"
| "split_acc acc (c # cs) =
     (if is_space c then (if acc = [] then split_acc [] cs else acc # split_acc [] cs)
      else split_acc (acc @ [c]) cs)"

definition py_split :: "string \<Rightarrow> string list" where
  "py_split txt = split_acc [] txt"

text \<open>\<open>xs[-1]\<close>.\<close>

definition last_item :: "'a list \<Rightarrow> py_exception + 'a" where
  "last_item xs = (if xs = [] then Inl IndexError else Inr (last xs))"

text \<open>\<open>s.strip(chars)\<close>.\<close>

definition py_strip :: "string \<Rightarrow> string \<Rightarrow> string" where
  "py_strip chars s =
     rev (dropWhile (\<lambda>c. c \<in> set chars) (rev (dropWhile (\<lambda>c. c \<in> set chars) s)))"

text \<open>\<open>s.strip()\<close>: whitespace removed at both ends.\<close>

definition py_strip_ws :: "string \<Rightarrow> string" where
  "py_strip_ws s = rev (dropWhile is_space (rev (dropWhile is_space s)))"

text \<open>\<open>s.split(sep)\<close> for a one-character separator: empty fields are kept.\<close>

fun split_on :: "char \<Rightarrow> string \<Rightarrow> string list" where
  "split_on sep [] = [[]]"
| "split_on sep (c # cs) =
     (if c = sep then [] # split_on sep cs
      else (case split_on sep cs of
              [] \<Rightarrow> [[c]]
            | w # ws \<Rightarrow> (c # w) # ws))"

text \<open>\<open>r, g, b = fields\<close>: unpacking needs exactly three values.\<close>

fun unpack3 :: "'a list \<Rightarrow> py_exception + ('a \<times> 'a \<times> 'a)" where
  "unpack3 [r, g, b] = Inr (r, g, b)"
| "unpack3 _ = Inl ValueError"

text \<open>
  \<open>int(s)\<close>: surrounding whitespace is ignored, then an optional sign and decimal digits,
  where single underscores may separate digits. The whitespace \<open>int\<close> skips is C's
  (tab to carriage return, and space) and, of the characters from 128 on, those of
  \<open>str.isspace\<close>; unlike \<open>strip()\<close> it does not skip the separators U+001C to U+001F.
\<close>

definition is_int_space :: "char \<Rightarrow> bool" where
  "is_int_space c = (of_char c \<in> {9, 10, 11, 12, 13, 32, 133, 160 :: nat})"

definition is_digit :: "char \<Rightarrow> bool" where
  "is_digit c = (c \<in> set ''0123456789'')"

definition digit_val :: "char \<Rightarrow> nat" where
  "digit_val c = of_char c - 48"

fun well_grouped :: "string \<Rightarrow> bool" where
  "well_grouped [] = False"
| "well_grouped [c] = is_digit c"
| "well_grouped (c # d # cs) =
     (is_digit c \<and> (if d = CHR ''_'' then well_grouped cs else well_grouped (d # cs)))"

definition digits_val :: "string \<Rightarrow> nat" where
  "digits_val s = foldl (\<lambda>a c. 10 * a + digit_val c) 0 (filter is_digit s)"

definition py_int :: "string \<Rightarrow> py_exception + int" where
  "py_int s =
     (let t = rev (dropWhile is_int_space (rev (dropWhile is_int_space s)));
          neg = (t \<noteq> [] \<and> hd t = CHR ''-'');
          body = (if t \<noteq> [] \<and> (hd t = CHR ''-'' \<or> hd t = CHR ''+'') then tl t else t)
      in if well_grouped body
         then Inr (if neg then - int (digits_val body) else int (digits_val body))
         else Inl ValueError)"

subsection \<open>collections.deque with maxlen\<close>

record 'a deque =
  items :: "'a list"
  maxlen :: nat

text \<open>\<open>deque(maxlen=n)\<close> and \<open>deque(lst, maxlen=n)\<close>: a longer list keeps its last \<open>n\<close> items.\<close>

definition deque_new :: "nat \<Rightarrow> 'a deque" where
  "deque_new n = \<lparr>items = [], maxlen = n\<rparr>"

definition deque_of :: "'a list \<Rightarrow> nat \<Rightarrow> 'a deque" where
  "deque_of lst n = \<lparr>items = drop (length lst - n) lst, maxlen = n\<rparr>"

text \<open>\<open>x in d\<close>.\<close>

definition deque_contains :: "'a \<Rightarrow> 'a deque \<Rightarrow> bool" where
  "deque_contains x d = (x \<in> set (items d))"

text \<open>\<open>d.remove(x)\<close>: removes the first occurrence, raises \<open>ValueError\<close> when there is none.\<close>

definition deque_remove :: "'a \<Rightarrow> 'a deque \<Rightarrow> py_exception + 'a deque" where
  "deque_remove x d =
     (if x \<in> set (items d) then Inr (d\<lparr>items := remove1 x (items d)\<rparr>) else Inl ValueError)"

text \<open>
  \<open>d.appendleft(x)\<close>: on a full bounded deque the item at the opposite (right) end is
  discarded; with \<open>maxlen = 0\<close> nothing is stored.
\<close>

definition deque_appendleft :: "'a \<Rightarrow> 'a deque \<Rightarrow> 'a deque" where
  "deque_appendleft x d = d\<lparr>items := take (maxlen d) (x # items d)\<rparr>"

definition deque_clear :: "'a deque \<Rightarrow> 'a deque" where
  "deque_clear d = d\<lparr>items := []\<rparr>"


section \<open>The window: state of ColorPickerWindow\<close>

text \<open>
  The status label holds Chinese text in the source; each message is a constructor here,
  with the values the source interpolates into it.
\<close>

datatype reg_error =
    PickRegFailed py_exception
  | CopyRegFailed py_exception

datatype status_msg =
    Initialising
  | HotkeysRegistered string string
  | HotkeyErrors "reg_error list"
  | Sampled string
  | PickFailed py_exception
  | ManualSelect string
  | ClickFailed
  | NothingToCopy
  | Copied string
  | CopyFailed py_exception
  | HistoryCleared
  | Switched string

datatype warning =
    RegistrationWarning "reg_error list"
  | EmptyHotkeyWarning

text \<open>The QListWidget: the text of each row and the current row (\<open>-1\<close> when there is none).\<close>

record list_widget =
  rows :: "string list"
  current_row :: int

type_synonym handle = nat

record window =
  pick_hotkey :: string
  copy_hotkey :: string
  pick_handler :: "handle option"
  copy_handler :: "handle option"
  history :: "rgb deque"
  history_index :: int
  swatch :: string
  label_rgb :: string
  label_hex :: string
  list_view :: list_widget
  status :: status_msg
  warnings :: "warning list"
  current_rgb :: "rgb option"
  selected_rgb :: "rgb option"

definition MAX_HISTORY :: nat where
  "MAX_HISTORY = 10"

definition DEFAULT_PICK_HOTKEY :: string where
  "DEFAULT_PICK_HOTKEY = ''e''"

definition DEFAULT_COPY_HOTKEY :: string where
  "DEFAULT_COPY_HOTKEY = ''ctrl+c''"

text \<open>
  \<open>ColorPickerWindow.__init__\<close>, lines 63-128. The source reads the module constant
  \<open>MAX_HISTORY\<close> (10, "can be modified before running"); it is the argument here.
\<close>

definition init_window :: "nat \<Rightarrow> window" where
  "init_window max_history =
     \<lparr>pick_hotkey = DEFAULT_PICK_HOTKEY,
      copy_hotkey = DEFAULT_COPY_HOTKEY,
      pick_handler = None,
      copy_handler = None,
      history = deque_new max_history,
      history_index = 0,
      swatch = [],
      label_rgb = ''RGB: -'',
      label_hex = ''HEX: -'',
      list_view = \<lparr>rows = [], current_row = - 1\<rparr>,
      status = Initialising,
      warnings = [],
      current_rgb = None,
      selected_rgb = None\<rparr>"

definition swatch_style :: "string \<Rightarrow> string" where
  "swatch_style hexc = ''background-color: '' @ hexc @ ''; border: 1px solid #000;''"

subsection \<open>The history list view\<close>

text \<open>The text of a row, line 244: the hex string, four spaces, \<open>str(rgb)\<close>.\<close>

definition item_text :: "rgb \<Rightarrow> string" where
  "item_text c = rgb_to_hex_tuple c @ ''    '' @ str_rgb c"

text \<open>\<open>QListWidget.setCurrentRow\<close>: a row outside the widget leaves no current row.\<close>

definition setCurrentRow :: "int \<Rightarrow> list_widget \<Rightarrow> list_widget" where
  "setCurrentRow i lw =
     lw\<lparr>current_row := (if 0 \<le> i \<and> i < int (length (rows lw)) then i else - 1)\<rparr>"

definition list_clear :: "list_widget \<Rightarrow> list_widget" where
  "list_clear lw = \<lparr>rows = [], current_row = - 1\<rparr>"

text \<open>\<open>refresh_history_list\<close>, lines 240-252.\<close>

definition refresh_history_list :: "window \<Rightarrow> window" where
  "refresh_history_list w =
     (let lw = (list_clear (list_view w))\<lparr>rows := map item_text (items (history w))\<rparr>
      in w\<lparr>list_view :=
             (if length (rows lw) > 0
              then setCurrentRow (max 0 (min (history_index w) (int (length (rows lw)) - 1))) lw
              else lw)\<rparr>)"

subsection \<open>Sampling a colour\<close>

text \<open>
  Lines 208-226 of \<open>pick_under_cursor\<close>: an existing colour is removed and put at the
  left end, a new one is put at the left end; if a deque call raises, the deque is
  rebuilt from a list.
\<close>

definition history_add :: "rgb \<Rightarrow> rgb deque \<Rightarrow> rgb deque" where
  "history_add c h =
     (case (if deque_contains c h
            then (case deque_remove c h of
                    Inl e \<Rightarrow> Inl e
                  | Inr h' \<Rightarrow> Inr (deque_appendleft c h'))
            else Inr (deque_appendleft c h)) of
        Inr h' \<Rightarrow> h'
      | Inl e \<Rightarrow>
          (let lst = filter (\<lambda>x. x \<noteq> c) (items h);
               lst = c # lst;
               lst = take (maxlen h) lst
           in deque_of lst (maxlen h)))"

text \<open>
  \<open>pick_under_cursor\<close>, lines 192-237. \<open>position\<close> is the outcome of
  \<open>pyautogui.position()\<close> and \<open>pixel\<close> stands for \<open>pyautogui.pixel\<close>; either may raise.
  The queued calls on the labels and on \<open>refresh_history_list\<close> are applied in place.
\<close>

definition pick_under_cursor ::
  "(py_exception + int \<times> int) \<Rightarrow> (int \<Rightarrow> int \<Rightarrow> py_exception + rgb) \<Rightarrow> window \<Rightarrow> window" where
  "pick_under_cursor position pixel w =
     (case position of
        Inl e \<Rightarrow> w\<lparr>status := PickFailed e\<rparr>
      | Inr (x, y) \<Rightarrow>
          (case pixel x y of
             Inl e \<Rightarrow> w\<lparr>status := PickFailed e\<rparr>
           | Inr (r, g, b) \<Rightarrow>
               (let hexc = rgb_to_hex r g b;
                    w1 = w\<lparr>current_rgb := Some (r, g, b),
                           label_rgb := ''RGB: '' @ str_int r @ '', '' @ str_int g @ '', '' @ str_int b
                                        @ ''  (pos: '' @ str_int x @ '','' @ str_int y @ '')'',
                           label_hex := ''HEX: '' @ hexc,
                           swatch := swatch_style hexc\<rparr>;
                    w2 = w1\<lparr>history := history_add (r, g, b) (history w1)\<rparr>;
                    w3 = refresh_history_list (w2\<lparr>history_index := 0\<rparr>);
                    w4 = w3\<lparr>selected_rgb :=
                              (if items (history w3) \<noteq> [] then Some (items (history w3) ! 0)
                               else current_rgb w3)\<rparr>
                in w4\<lparr>status := Sampled hexc\<rparr>)))"

subsection \<open>Clicking a row\<close>

text \<open>Lines 255-259 of \<open>on_history_clicked\<close>: the colour is read back from the row's text.\<close>

definition parse_item :: "string \<Rightarrow> py_exception + rgb" where
  "parse_item txt =
     (case last_item (py_split txt) of
        Inl e \<Rightarrow> Inl e
      | Inr part \<Rightarrow>
          (case unpack3 (split_on CHR '','' (py_strip ''()'' part)) of
             Inl e \<Rightarrow> Inl e
           | Inr (r, g, b) \<Rightarrow>
               (case py_int r of
                  Inl e \<Rightarrow> Inl e
                | Inr ri \<Rightarrow>
                    (case py_int g of
                       Inl e \<Rightarrow> Inl e
                     | Inr gi \<Rightarrow>
                         (case py_int b of
                            Inl e \<Rightarrow> Inl e
                          | Inr bi \<Rightarrow> Inr (ri, gi, bi))))))"

text \<open>\<open>on_history_clicked\<close>, lines 254-269; \<open>txt\<close> is \<open>item.text()\<close>.\<close>

definition on_history_clicked :: "string \<Rightarrow> window \<Rightarrow> window" where
  "on_history_clicked txt w =
     (case parse_item txt of
        Inl e \<Rightarrow> w\<lparr>status := ClickFailed\<rparr>
      | Inr c \<Rightarrow>
          (let hexc = rgb_to_hex_tuple c
           in w\<lparr>selected_rgb := Some c,
                history_index := current_row (list_view w),
                status := ManualSelect hexc,
                swatch := swatch_style hexc,
                label_hex := ''HEX: '' @ hexc,
                label_rgb := ''RGB: '' @ str_rgb c\<rparr>))"

text \<open>
  A mouse click on row \<open>i\<close> of the list: Qt makes the row current and emits
  \<open>itemClicked\<close> with its item; a click below the last row hits no item.
\<close>

definition click_row :: "nat \<Rightarrow> window \<Rightarrow> window" where
  "click_row i w =
     (if i < length (rows (list_view w))
      then on_history_clicked (rows (list_view w) ! i)
             (w\<lparr>list_view := setCurrentRow (int i) (list_view w)\<rparr>)
      else w)"

subsection \<open>Copying\<close>

text \<open>
  The clipboard holds the last text written (\<open>None\<close> before any write). \<open>fault\<close> is the
  exception \<open>pyperclip.copy\<close> raises at this call, if any.
\<close>

type_synonym clipboard = "string option"

definition pyperclip_copy :: "py_exception option \<Rightarrow> string \<Rightarrow> clipboard \<Rightarrow> py_exception + clipboard" where
  "pyperclip_copy fault text cb = (case fault of Some e \<Rightarrow> Inl e | None \<Rightarrow> Inr (Some text))"

text \<open>Lines 272-282 of \<open>copy_selected_color\<close>: the colour to copy, if there is one.\<close>

definition color_to_copy :: "window \<Rightarrow> rgb option" where
  "color_to_copy w =
     (case selected_rgb w of
        None \<Rightarrow>
          (if items (history w) \<noteq> [] then Some (items (history w) ! 0)
           else (case current_rgb w of
                   Some c \<Rightarrow> Some c
                 | None \<Rightarrow> None))
      | Some c \<Rightarrow> Some c)"

text \<open>\<open>copy_selected_color\<close>, lines 271-291.\<close>

definition copy_selected_color ::
  "py_exception option \<Rightarrow> window \<times> clipboard \<Rightarrow> window \<times> clipboard" where
  "copy_selected_color fault wc =
     (case wc of (w, cb) \<Rightarrow>
        (case color_to_copy w of
           None \<Rightarrow> (w\<lparr>status := NothingToCopy\<rparr>, cb)
         | Some c \<Rightarrow>
             (let hexc = rgb_to_hex_tuple c
              in case pyperclip_copy fault hexc cb of
                   Inr cb' \<Rightarrow> (w\<lparr>status := Copied hexc\<rparr>, cb')
                 | Inl e \<Rightarrow> (w\<lparr>status := CopyFailed e\<rparr>, cb))))"

subsection \<open>Clearing and keyboard navigation\<close>

text \<open>\<open>clear_history\<close>, lines 293-298.\<close>

definition clear_history :: "window \<Rightarrow> window" where
  "clear_history w =
     w\<lparr>history := deque_clear (history w),
       list_view := list_clear (list_view w),
       selected_rgb := None,
       history_index := 0,
       status := HistoryCleared\<rparr>"

text \<open>\<open>select_history_index\<close>, lines 311-327.\<close>

definition select_history_index :: "int \<Rightarrow> window \<Rightarrow> window" where
  "select_history_index index w =
     (if items (history w) = [] then w
      else
        (let index = max 0 (min index (int (length (items (history w))) - 1));
             c = items (history w) ! nat index;
             hexc = rgb_to_hex_tuple c
         in w\<lparr>history_index := index,
              selected_rgb := Some c,
              swatch := swatch_style hexc,
              label_hex := ''HEX: '' @ hexc,
              label_rgb := ''RGB: '' @ str_rgb c,
              list_view := setCurrentRow index (list_view w),
              status := Switched hexc\<rparr>))"

datatype key = Key_Up | Key_Down | Key_Other

text \<open>
  \<open>keyPressEvent\<close>, lines 329-348. Python's \<open>%\<close> with a positive right operand is
  \<open>mod\<close> on \<open>int\<close>. Keys handed to the parent class leave the window as it is.
\<close>

definition keyPressEvent :: "key \<Rightarrow> window \<Rightarrow> window" where
  "keyPressEvent k w =
     (if items (history w) = [] then w
      else
        (let n = int (length (items (history w)))
         in case k of
              Key_Up \<Rightarrow> select_history_index ((history_index w - 1) mod n) w
            | Key_Down \<Rightarrow> select_history_index ((history_index w + 1) mod n) w
            | Key_Other \<Rightarrow> w))"


section \<open>Global hotkeys\<close>

text \<open>
  The \<open>keyboard\<close> library, as far as \<open>register_hotkeys\<close> uses it: the live hotkeys
  (handler, pattern, callback), the next handler to hand out, and the calls made so far.
  \<open>add_hotkey\<close> raises on a pattern the library or the system refuses (\<open>rejects\<close> gives
  the exception); \<open>remove_hotkey\<close> raises \<open>KeyError\<close> on a handler that is not live.
\<close>

datatype action = PickAction | CopyAction

datatype kb_call = RemoveCall handle | AddCall string action

record keyboard =
  hotkeys :: "(handle \<times> string \<times> action) list"
  next_handle :: handle
  calls :: "kb_call list"

definition init_keyboard :: keyboard where
  "init_keyboard = \<lparr>hotkeys = [], next_handle = 1, calls = []\<rparr>"

definition is_live :: "handle \<Rightarrow> keyboard \<Rightarrow> bool" where
  "is_live h kb = (h \<in> set (map fst (hotkeys kb)))"

definition remove_hotkey :: "handle \<Rightarrow> keyboard \<Rightarrow> py_exception option \<times> keyboard" where
  "remove_hotkey h kb =
     (let kb' = kb\<lparr>calls := calls kb @ [RemoveCall h]\<rparr>
      in if is_live h kb
         then (None, kb'\<lparr>hotkeys := filter (\<lambda>e. fst e \<noteq> h) (hotkeys kb)\<rparr>)
         else (Some KeyError, kb'))"

definition add_hotkey ::
  "(string \<Rightarrow> py_exception option) \<Rightarrow> string \<Rightarrow> action \<Rightarrow> keyboard
   \<Rightarrow> (py_exception + handle) \<times> keyboard" where
  "add_hotkey rejects pattern act kb =
     (let kb' = kb\<lparr>calls := calls kb @ [AddCall pattern act]\<rparr>
      in case rejects pattern of
           Some e \<Rightarrow> (Inl e, kb')
         | None \<Rightarrow>
             (Inr (next_handle kb),
              kb'\<lparr>hotkeys := hotkeys kb @ [(next_handle kb, pattern, act)],
                  next_handle := Suc (next_handle kb)\<rparr>))"

text \<open>Lines 138-143 and 144-149 of \<open>register_hotkeys\<close>: the old handlers are removed.\<close>

definition remove_old_pick :: "window \<times> keyboard \<Rightarrow> window \<times> keyboard" where
  "remove_old_pick wk =
     (case wk of (w, kb) \<Rightarrow>
        (case pick_handler w of
           None \<Rightarrow> (w, kb)
         | Some h \<Rightarrow>
             (case remove_hotkey h kb of
                (None, kb') \<Rightarrow> (w\<lparr>pick_handler := None\<rparr>, kb')
              | (Some e, kb') \<Rightarrow> (w, kb'))))"

definition remove_old_copy :: "window \<times> keyboard \<Rightarrow> window \<times> keyboard" where
  "remove_old_copy wk =
     (case wk of (w, kb) \<Rightarrow>
        (case copy_handler w of
           None \<Rightarrow> (w, kb)
         | Some h \<Rightarrow>
             (case remove_hotkey h kb of
                (None, kb') \<Rightarrow> (w\<lparr>copy_handler := None\<rparr>, kb')
              | (Some e, kb') \<Rightarrow> (w, kb'))))"

text \<open>Lines 151-155 and 156-160: each hotkey is added in its own \<open>try\<close>.\<close>

definition add_pick ::
  "(string \<Rightarrow> py_exception option) \<Rightarrow> window \<times> keyboard \<Rightarrow> (window \<times> keyboard) \<times> reg_error list" where
  "add_pick rejects wk =
     (case wk of (w, kb) \<Rightarrow>
        (case add_hotkey rejects (pick_hotkey w) PickAction kb of
           (Inr h, kb') \<Rightarrow> ((w\<lparr>pick_handler := Some h\<rparr>, kb'), [])
         | (Inl e, kb') \<Rightarrow> ((w\<lparr>pick_handler := None\<rparr>, kb'), [PickRegFailed e])))"

definition add_copy ::
  "(string \<Rightarrow> py_exception option) \<Rightarrow> window \<times> keyboard \<Rightarrow> (window \<times> keyboard) \<times> reg_error list" where
  "add_copy rejects wk =
     (case wk of (w, kb) \<Rightarrow>
        (case add_hotkey rejects (copy_hotkey w) CopyAction kb of
           (Inr h, kb') \<Rightarrow> ((w\<lparr>copy_handler := Some h\<rparr>, kb'), [])
         | (Inl e, kb') \<Rightarrow> ((w\<lparr>copy_handler := None\<rparr>, kb'), [CopyRegFailed e])))"

text \<open>Lines 161-170: one report, made after both attempts.\<close>

definition report_registration :: "reg_error list \<Rightarrow> window \<Rightarrow> window" where
  "report_registration errors w =
     (if errors \<noteq> []
      then w\<lparr>status := HotkeyErrors errors,
             warnings := warnings w @ [RegistrationWarning errors]\<rparr>
      else w\<lparr>status := HotkeysRegistered (pick_hotkey w) (copy_hotkey w)\<rparr>)"

text \<open>\<open>register_hotkeys\<close>, lines 135-170.\<close>

definition register_hotkeys ::
  "(string \<Rightarrow> py_exception option) \<Rightarrow> window \<times> keyboard \<Rightarrow> window \<times> keyboard" where
  "register_hotkeys rejects wk =
     (let wk1 = remove_old_pick wk;
          wk2 = remove_old_copy wk1;
          (wk3, errors_pick) = add_pick rejects wk2;
          (wk4, errors_copy) = add_copy rejects wk3;
          errors = errors_pick @ errors_copy
      in (report_registration errors (fst wk4), snd wk4))"

text \<open>
  \<open>open_settings\<close>, lines 180-190. \<open>dialog\<close> is \<open>None\<close> when the dialog is cancelled, else
  the two texts typed; \<open>get_values\<close> strips them.
\<close>

definition open_settings ::
  "(string \<times> string) option \<Rightarrow> (string \<Rightarrow> py_exception option) \<Rightarrow> window \<times> keyboard
   \<Rightarrow> window \<times> keyboard" where
  "open_settings dialog rejects wk =
     (case wk of (w, kb) \<Rightarrow>
        (case dialog of
           None \<Rightarrow> (w, kb)
         | Some (pick_text, copy_text) \<Rightarrow>
             (let new_pick = py_strip_ws pick_text;
                  new_copy = py_strip_ws copy_text
              in if new_pick = [] \<or> new_copy = []
                 then (w\<lparr>warnings := warnings w @ [EmptyHotkeyWarning]\<rparr>, kb)
                 else register_hotkeys rejects
                        (w\<lparr>pick_hotkey := new_pick, copy_hotkey := new_copy\<rparr>, kb))))"

section \<open>The running application\<close>

record app =
  win :: window
  clip :: clipboard
  kbd :: keyboard

definition init_app :: "nat \<Rightarrow> app" where
  "init_app max_history = \<lparr>win = init_window max_history, clip = None, kbd = init_keyboard\<rparr>"

text \<open>
  What can happen to the window: a pick (hotkey or button) with the sampler's outcome, a
  copy with the clipboard's outcome, the clear button, a click on a row, a key press, the
  settings dialog, and the registration thread started by \<open>__init__\<close>.
\<close>

datatype event =
    Pick "py_exception + int \<times> int" "int \<Rightarrow> int \<Rightarrow> py_exception + rgb"
  | Copy "py_exception option"
  | Clear
  | Click nat
  | Key key
  | Settings "(string \<times> string) option" "string \<Rightarrow> py_exception option"
  | Register "string \<Rightarrow> py_exception option"

fun step :: "app \<Rightarrow> event \<Rightarrow> app" where
  "step s (Pick position pixel) = s\<lparr>win := pick_under_cursor position pixel (win s)\<rparr>"
| "step s (Copy fault) =
     (case copy_selected_color fault (win s, clip s) of (w, cb) \<Rightarrow> s\<lparr>win := w, clip := cb\<rparr>)"
| "step s Clear = s\<lparr>win := clear_history (win s)\<rparr>"
| "step s (Click i) = s\<lparr>win := click_row i (win s)\<rparr>"
| "step s (Key k) = s\<lparr>win := keyPressEvent k (win s)\<rparr>"
| "step s (Settings dialog rejects) =
     (case open_settings dialog rejects (win s, kbd s) of (w, kb) \<Rightarrow> s\<lparr>win := w, kbd := kb\<rparr>)"
| "step s (Register rejects) =
     (case register_hotkeys rejects (win s, kbd s) of (w, kb) \<Rightarrow> s\<lparr>win := w, kbd := kb\<rparr>)"

definition run :: "app \<Rightarrow> event list \<Rightarrow> app" where
  "run s es = foldl step s es"

text \<open>A successful sample of colour \<open>c\<close>, and the history after a sequence of them.\<close>

definition add :: "rgb \<Rightarrow> window \<Rightarrow> window" where
  "add c w = pick_under_cursor (Inr (0, 0)) (\<lambda>x y. Inr c) w"

definition add_all :: "rgb list \<Rightarrow> window \<Rightarrow> window" where
  "add_all cs w = foldl (\<lambda>w c. add c w) w cs"


text \<open>The event of a pick whose sampler calls succeed and return colour \<open>c\<close>.\<close>

definition sampled :: "rgb \<Rightarrow> event" where
  "sampled c = Pick (Inr (0, 0)) (\<lambda>x y. Inr c)"

text \<open>
  The colour an event samples, if it is a pick whose sampler calls both succeed, and the
  last colour sampled in a sequence of events.
\<close>

fun sample_of :: "event \<Rightarrow> rgb option" where
  "sample_of (Pick (Inr (x, y)) pixel) = (case pixel x y of Inr c \<Rightarrow> Some c | Inl e \<Rightarrow> None)"
| "sample_of _ = None"

fun last_sampled :: "event list \<Rightarrow> rgb option" where
  "last_sampled [] = None"
| "last_sampled (e # es) =
     (case last_sampled es of
        Some c \<Rightarrow> Some c
      | None \<Rightarrow> sample_of e)"

text \<open>The fields of the window that the history, the selection and the list are made of.\<close>

definition core :: "window \<Rightarrow> rgb deque \<times> int \<times> rgb option \<times> rgb option \<times> string list" where
  "core w = (history w, history_index w, current_rgb w, selected_rgb w, rows (list_view w))"

text \<open>
  What holds of the window between events, for a history created with \<open>maxlen = n\<close>: the
  deque is within its bound and free of duplicates, the list shows the history, and the
  index and the selected colour point at the same entry.
\<close>

definition window_inv :: "nat \<Rightarrow> window \<Rightarrow> bool" where
  "window_inv n w =
     (maxlen (history w) = n \<and>
      distinct (items (history w)) \<and>
      length (items (history w)) \<le> n \<and>
      rows (list_view w) = map item_text (items (history w)) \<and>
      (if items (history w) = []
       then history_index w = 0 \<and> (n = 0 \<or> selected_rgb w = None)
       else 0 \<le> history_index w \<and>
            history_index w < int (length (items (history w))) \<and>
            selected_rgb w = Some (items (history w) ! nat (history_index w))))"

section \<open>Reading a row's text back\<close>

text \<open>
  \<open>str(rgb)\<close> puts a space after each comma, so the last whitespace-separated word of a
  row's text is only the blue component and the closing parenthesis.
\<close>

lemma dec_digit_in: "d < 10 \<Longrightarrow> dec_digit d \<in> set ''0123456789''"
  unfolding dec_digit_def by (rule nth_mem) simp

lemma dec_nat_chars: "set (dec_nat n) \<subseteq> set ''0123456789''"
proof (induction n rule: dec_nat.induct)
  case (1 n)
  show ?case
  proof (cases "n < 10")
    case True
    then show ?thesis using dec_digit_in [of n] by (subst dec_nat.simps) simp
  next
    case False
    have "n mod 10 < 10" by simp
    then have "dec_digit (n mod 10) \<in> set ''0123456789''" by (rule dec_digit_in)
    with False 1 show ?thesis by (subst dec_nat.simps) simp
  qed
qed

lemma dec_nat_nonempty: "dec_nat n \<noteq> []"
  by (subst dec_nat.simps) simp

lemma str_int_nonempty: "str_int v \<noteq> []"
  by (simp add: str_int_def dec_nat_nonempty)

lemma str_int_chars: "set (str_int v) \<subseteq> insert CHR ''-'' (set ''0123456789'')"
proof (cases "v < 0")
  case True
  then have "set (str_int v) = insert CHR ''-'' (set (dec_nat (nat (- v))))"
    by (simp only: str_int_def if_True list.set)
  then show ?thesis using dec_nat_chars [of "nat (- v)"] by blast
next
  case False
  then have "set (str_int v) = set (dec_nat (nat v))"
    by (simp only: str_int_def if_False)
  then show ?thesis using dec_nat_chars [of "nat v"] by blast
qed

lemma sign_digit_plain:
  "\<forall>c \<in> insert CHR ''-'' (set ''0123456789'').
     \<not> is_space c \<and> c \<noteq> CHR '','' \<and> c \<noteq> CHR ''('' \<and> c \<noteq> CHR '')''"
  by (simp add: is_space_def)

lemma str_int_plain:
  assumes "c \<in> set (str_int v)"
  shows "\<not> is_space c" and "c \<noteq> CHR '',''" and "c \<notin> set ''()''"
proof -
  from assms str_int_chars [of v] have "c \<in> insert CHR ''-'' (set ''0123456789'')" by blast
  with sign_digit_plain
  have *: "\<not> is_space c \<and> c \<noteq> CHR '','' \<and> c \<noteq> CHR ''('' \<and> c \<noteq> CHR '')''" by blast
  from * show "\<not> is_space c" by simp
  from * show "c \<noteq> CHR '',''" by simp
  from * show "c \<notin> set ''()''" by simp
qed

lemma split_acc_plain:
  "\<forall>c \<in> set w. \<not> is_space c \<Longrightarrow> split_acc acc w = (if acc @ w = [] then [] else [acc @ w])"
  by (induction w arbitrary: acc) auto

lemma split_acc_last:
  assumes "is_space sp" and "w \<noteq> []" and "\<forall>c \<in> set w. \<not> is_space c"
  shows "split_acc acc (xs @ sp # w) \<noteq> [] \<and> last (split_acc acc (xs @ sp # w)) = w"
  using assms by (induction xs arbitrary: acc) (auto simp: split_acc_plain)

lemma split_on_plain: "sep \<notin> set s \<Longrightarrow> split_on sep s = [s]"
  by (induction s) auto

lemma py_strip_suffix:
  assumes "s \<noteq> []" and "\<forall>c \<in> set s. c \<notin> set chars" and "set t \<subseteq> set chars"
  shows "py_strip chars (s @ t) = s"
proof -
  from assms obtain a s' where s: "s = a # s'" by (cases s) auto
  obtain z s'' where s2: "s = s'' @ [z]" using assms(1) by (cases s rule: rev_cases) auto
  have a: "a \<notin> set chars" using assms(2) s by simp
  have z: "z \<notin> set chars" using assms(2) s2 by simp
  have "dropWhile (\<lambda>c. c \<in> set chars) (s @ t) = s @ t" using a s by simp
  moreover have "dropWhile (\<lambda>c. c \<in> set chars) (rev t @ rev s) = rev s"
    using assms(3) z s2 by (simp add: dropWhile_append3 subset_iff)
  ultimately show ?thesis by (simp add: py_strip_def)
qed

lemma item_text_last_word:
  "last_item (py_split (item_text (r, g, b))) = Inr (str_int b @ '')'')"
proof -
  let ?w = "str_int b @ '')''"
  have sp: "is_space CHR '' ''" by (simp add: is_space_def)
  have w: "\<forall>c \<in> set ?w. \<not> is_space c"
    using str_int_plain(1) [of _ b] by (auto simp: is_space_def)
  let ?xs = "rgb_to_hex r g b @ ''    ('' @ str_int r @ '', '' @ str_int g @ '',''"
  have "item_text (r, g, b) = ?xs @ CHR '' '' # ?w"
    by (simp add: item_text_def str_rgb_def rgb_to_hex_tuple_def)
  moreover have "split_acc [] (?xs @ CHR '' '' # ?w) \<noteq> [] \<and>
                 last (split_acc [] (?xs @ CHR '' '' # ?w)) = ?w"
    by (rule split_acc_last [OF sp _ w]) simp
  ultimately show ?thesis by (simp only: py_split_def last_item_def if_False)
qed

lemma parse_item_item_text: "parse_item (item_text c) = Inl ValueError"
proof -
  obtain r g b where c: "c = (r, g, b)" by (cases c) auto
  have strip: "py_strip ''()'' (str_int b @ '')'') = str_int b"
    using str_int_plain(3) [of _ b] by (intro py_strip_suffix) (auto simp: str_int_nonempty)
  have "CHR '','' \<notin> set (str_int b)" using str_int_plain(2) [of _ b] by blast
  then have "split_on CHR '','' (str_int b) = [str_int b]" by (rule split_on_plain)
  with strip show ?thesis
    by (simp add: parse_item_def c item_text_last_word)
qed


section \<open>Adding a colour to the history\<close>

lemma history_add_items:
  "items (history_add c h) = take (maxlen h) (c # remove1 c (items h))"
  by (simp add: history_add_def deque_contains_def deque_remove_def deque_appendleft_def
      remove1_idem)

lemma history_add_maxlen: "maxlen (history_add c h) = maxlen h"
  by (simp add: history_add_def deque_contains_def deque_remove_def deque_appendleft_def)

lemma history_add_distinct: "distinct (items h) \<Longrightarrow> distinct (items (history_add c h))"
  by (simp add: history_add_items distinct_take)

lemma history_add_length: "length (items (history_add c h)) \<le> maxlen h"
  by (simp add: history_add_items)

lemma pick_failed_position:
  "pick_under_cursor (Inl e) pixel w = w\<lparr>status := PickFailed e\<rparr>"
  by (simp add: pick_under_cursor_def)

lemma pick_failed_pixel:
  "pixel x y = Inl e \<Longrightarrow> pick_under_cursor (Inr (x, y)) pixel w = w\<lparr>status := PickFailed e\<rparr>"
  by (simp add: pick_under_cursor_def)

lemma refresh_history_list_fields:
  "history (refresh_history_list w) = history w"
  "history_index (refresh_history_list w) = history_index w"
  "current_rgb (refresh_history_list w) = current_rgb w"
  "selected_rgb (refresh_history_list w) = selected_rgb w"
  "rows (list_view (refresh_history_list w)) = map item_text (items (history w))"
  by (simp_all add: refresh_history_list_def Let_def list_clear_def setCurrentRow_def)

lemma pick_ok_fields:
  assumes "pixel x y = Inr c"
  shows "history (pick_under_cursor (Inr (x, y)) pixel w) = history_add c (history w)"
    and "history_index (pick_under_cursor (Inr (x, y)) pixel w) = 0"
    and "current_rgb (pick_under_cursor (Inr (x, y)) pixel w) = Some c"
    and "selected_rgb (pick_under_cursor (Inr (x, y)) pixel w) =
           (if items (history_add c (history w)) \<noteq> []
            then Some (items (history_add c (history w)) ! 0) else Some c)"
    and "rows (list_view (pick_under_cursor (Inr (x, y)) pixel w)) =
           map item_text (items (history_add c (history w)))"
  using assms
  by (cases c; simp add: pick_under_cursor_def Let_def refresh_history_list_fields)+

lemma add_fields:
  "history (add c w) = history_add c (history w)"
  "history_index (add c w) = 0"
  "current_rgb (add c w) = Some c"
  by (simp_all add: add_def pick_ok_fields)

lemma add_all_snoc: "add_all (cs @ [c]) w = add c (add_all cs w)"
  by (simp add: add_all_def)

lemma add_all_inv:
  "distinct (items (history (add_all cs (init_window cap)))) \<and>
   length (items (history (add_all cs (init_window cap)))) \<le> cap \<and>
   maxlen (history (add_all cs (init_window cap))) = cap"
proof (induction cs rule: rev_induct)
  case Nil
  show ?case by (simp add: add_all_def init_window_def deque_new_def)
next
  case (snoc c cs)
  then show ?case
    using history_add_length [of c "history (add_all cs (init_window cap))"]
    by (simp add: add_all_snoc add_fields history_add_distinct history_add_maxlen)
qed


section \<open>Full histories and colours sampled again\<close>

lemma add_selected: "selected_rgb (add c w) =
   (if items (history_add c (history w)) \<noteq> [] then Some (items (history_add c (history w)) ! 0)
    else Some c)"
  by (simp add: add_def pick_ok_fields)

lemma history_add_new_full:
  assumes "c \<notin> set (items h)" and "length (items h) = maxlen h" and "0 < maxlen h"
  shows "items (history_add c h) = c # butlast (items h)"
proof -
  obtain m where m: "maxlen h = Suc m" using assms(3) by (cases "maxlen h") auto
  have "items (history_add c h) = c # take m (items h)"
    using assms(1) by (simp add: history_add_items remove1_idem m)
  moreover have "butlast (items h) = take m (items h)"
    using assms(2) m by (simp add: butlast_conv_take)
  ultimately show ?thesis by simp
qed

lemma remove1_nth:
  assumes "distinct xs" and "i < length xs"
  shows "remove1 (xs ! i) xs = take i xs @ drop (Suc i) xs"
proof -
  have split: "xs = take i xs @ xs ! i # drop (Suc i) xs"
    using assms(2) by (rule id_take_nth_drop)
  have "xs ! i \<notin> set (take i xs)"
    using assms split by (metis distinct_append distinct.simps(2) disjoint_iff list.set_intros(1))
  then have "remove1 (xs ! i) (take i xs @ xs ! i # drop (Suc i) xs) = take i xs @ drop (Suc i) xs"
    by (simp add: remove1_append)
  with split show ?thesis by simp
qed

lemma history_add_present:
  assumes "i < length (items h)" and "distinct (items h)" and "length (items h) \<le> maxlen h"
  shows "items (history_add (items h ! i) h) = items h ! i # take i (items h) @ drop (Suc i) (items h)"
proof -
  let ?c = "items h ! i"
  have mem: "?c \<in> set (items h)" using assms(1) by simp
  have "length (?c # remove1 ?c (items h)) = length (items h)"
    using mem length_pos_if_in_set [OF mem] by (simp add: length_remove1)
  then have "take (maxlen h) (?c # remove1 ?c (items h)) = ?c # remove1 ?c (items h)"
    using assms(3) by (intro take_all) simp
  then show ?thesis
    using remove1_nth [OF assms(2) assms(1)] by (simp add: history_add_items)
qed

section \<open>Keyboard navigation\<close>

lemma select_history_index_fields:
  assumes "items (history w) \<noteq> []" and "0 \<le> i" and "i < int (length (items (history w)))"
  shows "history (select_history_index i w) = history w"
    and "history_index (select_history_index i w) = i"
    and "selected_rgb (select_history_index i w) = Some (items (history w) ! nat i)"
    and "current_rgb (select_history_index i w) = current_rgb w"
    and "rows (list_view (select_history_index i w)) = rows (list_view w)"
  using assms by (simp_all add: select_history_index_def Let_def setCurrentRow_def)

lemma key_down_fields:
  assumes "items (history w) \<noteq> []"
  shows "history (keyPressEvent Key_Down w) = history w"
    and "history_index (keyPressEvent Key_Down w)
           = (history_index w + 1) mod int (length (items (history w)))"
    and "selected_rgb (keyPressEvent Key_Down w)
           = Some (items (history w) ! nat ((history_index w + 1) mod int (length (items (history w)))))"
    and "current_rgb (keyPressEvent Key_Down w) = current_rgb w"
    and "rows (list_view (keyPressEvent Key_Down w)) = rows (list_view w)"
  using assms by (simp_all add: keyPressEvent_def Let_def select_history_index_fields)

lemma key_up_fields:
  assumes "items (history w) \<noteq> []"
  shows "history (keyPressEvent Key_Up w) = history w"
    and "history_index (keyPressEvent Key_Up w)
           = (history_index w - 1) mod int (length (items (history w)))"
    and "selected_rgb (keyPressEvent Key_Up w)
           = Some (items (history w) ! nat ((history_index w - 1) mod int (length (items (history w)))))"
    and "current_rgb (keyPressEvent Key_Up w) = current_rgb w"
    and "rows (list_view (keyPressEvent Key_Up w)) = rows (list_view w)"
  using assms by (simp_all add: keyPressEvent_def Let_def select_history_index_fields)

lemma key_empty: "items (history w) = [] \<Longrightarrow> keyPressEvent k w = w"
  by (simp add: keyPressEvent_def)

lemma key_other: "keyPressEvent Key_Other w = w"
  by (simp add: keyPressEvent_def Let_def)

lemma key_down_repeated:
  assumes "items (history w) \<noteq> []"
  shows "history ((keyPressEvent Key_Down ^^ k) w) = history w \<and>
         history_index ((keyPressEvent Key_Down ^^ k) w)
           = (if k = 0 then history_index w
              else (history_index w + int k) mod int (length (items (history w))))"
proof (induction k)
  case 0
  show ?case by simp
next
  case (Suc k)
  let ?v = "(keyPressEvent Key_Down ^^ k) w"
  from Suc have h: "history ?v = history w" by simp
  with assms have ne: "items (history ?v) \<noteq> []" by simp
  show ?case
  proof (cases "k = 0")
    case True
    then show ?thesis using assms by (simp add: key_down_fields)
  next
    case False
    with Suc have "history_index ?v = (history_index w + int k) mod int (length (items (history w)))"
      by simp
    then show ?thesis
      using ne h by (simp add: key_down_fields mod_add_left_eq mod_add_right_eq ac_simps)
  qed
qed

section \<open>What every reachable window satisfies\<close>

lemma window_inv_core: "core w = core w' \<Longrightarrow> window_inv n w = window_inv n w'"
  by (simp add: core_def window_inv_def)

lemma core_status [simp]: "core (w\<lparr>status := m\<rparr>) = core w"
  by (simp add: core_def)

lemma window_inv_init: "window_inv n (init_window n)"
  by (simp add: window_inv_def init_window_def deque_new_def)

lemma core_pick_failed:
  "sample_of (Pick position pixel) = None \<Longrightarrow> core (pick_under_cursor position pixel w) = core w"
  by (cases position) (auto simp: pick_failed_position pick_failed_pixel split: sum.splits)

lemma window_inv_pick_ok:
  assumes "window_inv n w" and "pixel x y = Inr c"
  shows "window_inv n (pick_under_cursor (Inr (x, y)) pixel w)"
proof -
  let ?h = "history_add c (history w)"
  from assms(1) have n: "maxlen (history w) = n" and d: "distinct (items (history w))"
    by (simp_all add: window_inv_def)
  note f = pick_ok_fields [where pixel = pixel and x = x and y = y and c = c and w = w, OF assms(2)]
  have "n = 0 \<or> items ?h \<noteq> []"
    by (cases n) (simp_all add: history_add_items n)
  then show ?thesis
    using history_add_distinct [OF d, of c] history_add_length [of c "history w"]
    by (auto simp: window_inv_def f history_add_maxlen n)
qed

lemma window_inv_pick:
  "window_inv n w \<Longrightarrow> window_inv n (pick_under_cursor position pixel w)"
proof (cases "sample_of (Pick position pixel)")
  case None
  assume "window_inv n w"
  then show ?thesis using window_inv_core [OF core_pick_failed [OF None]] by simp
next
  case (Some c)
  assume inv: "window_inv n w"
  from Some obtain x y where "position = Inr (x, y)" and "pixel x y = Inr c"
    by (cases position) (auto split: sum.splits)
  with inv show ?thesis by (simp add: window_inv_pick_ok)
qed

lemma current_rgb_pick:
  "current_rgb (pick_under_cursor position pixel w) =
     (case sample_of (Pick position pixel) of Some c \<Rightarrow> Some c | None \<Rightarrow> current_rgb w)"
proof (cases "sample_of (Pick position pixel)")
  case None
  then show ?thesis using core_pick_failed [OF None, of w] by (simp add: core_def)
next
  case (Some c)
  then obtain x y where "position = Inr (x, y)" and "pixel x y = Inr c"
    by (cases position) (auto split: sum.splits)
  with Some show ?thesis
    using pick_ok_fields(3) [where pixel = pixel and x = x and y = y and c = c and w = w]
    by simp
qed

lemma window_inv_clear: "window_inv n w \<Longrightarrow> window_inv n (clear_history w)"
  by (simp add: window_inv_def clear_history_def deque_clear_def list_clear_def)

lemma current_rgb_clear: "current_rgb (clear_history w) = current_rgb w"
  by (simp add: clear_history_def)

lemma core_click_failed:
  assumes "rows (list_view w) = map item_text (items (history w))"
  shows "core (click_row i w) = core w"
proof (cases "i < length (rows (list_view w))")
  case True
  with assms have "rows (list_view w) ! i = item_text (items (history w) ! i)" by simp
  with True show ?thesis
    by (simp add: click_row_def on_history_clicked_def parse_item_item_text core_def
        setCurrentRow_def)
next
  case False
  then show ?thesis by (simp add: click_row_def)
qed

lemma window_inv_click:
  assumes "window_inv n w"
  shows "window_inv n (click_row i w)"
proof -
  from assms have "rows (list_view w) = map item_text (items (history w))"
    by (simp add: window_inv_def)
  then have "core (click_row i w) = core w" by (rule core_click_failed)
  then have "window_inv n (click_row i w) = window_inv n w" by (rule window_inv_core)
  with assms show ?thesis by simp
qed

lemma window_inv_key: "window_inv n w \<Longrightarrow> window_inv n (keyPressEvent k w)"
proof (cases "items (history w) = []")
  case True
  assume "window_inv n w"
  with True show ?thesis by (simp add: key_empty)
next
  case False
  assume inv: "window_inv n w"
  have "0 < int (length (items (history w)))" using False by simp
  then have
    "0 \<le> (history_index w + 1) mod int (length (items (history w)))"
    "(history_index w + 1) mod int (length (items (history w))) < int (length (items (history w)))"
    "0 \<le> (history_index w - 1) mod int (length (items (history w)))"
    "(history_index w - 1) mod int (length (items (history w))) < int (length (items (history w)))"
    by simp_all
  with inv False show ?thesis
    by (cases k) (simp_all add: window_inv_def key_down_fields key_up_fields key_other)
qed

lemma current_rgb_key: "current_rgb (keyPressEvent k w) = current_rgb w"
  by (cases k; cases "items (history w) = []")
     (simp_all add: key_empty key_down_fields key_up_fields key_other)

lemma core_copy: "core (fst (copy_selected_color fault (w, cb))) = core w"
  by (simp add: copy_selected_color_def Let_def split: option.splits sum.splits)

lemma core_hotkeys [simp]:
  "core (w\<lparr>pick_handler := h\<rparr>) = core w"
  "core (w\<lparr>copy_handler := h\<rparr>) = core w"
  "core (w\<lparr>pick_hotkey := p\<rparr>) = core w"
  "core (w\<lparr>copy_hotkey := p\<rparr>) = core w"
  "core (w\<lparr>warnings := ws\<rparr>) = core w"
  by (simp_all add: core_def)

lemma core_remove_old_pick: "core (fst (remove_old_pick (w, kb))) = core w"
  by (simp add: remove_old_pick_def split: option.splits prod.splits)

lemma core_remove_old_copy: "core (fst (remove_old_copy (w, kb))) = core w"
  by (simp add: remove_old_copy_def split: option.splits prod.splits)

lemma core_add_pick: "core (fst (fst (add_pick rejects (w, kb)))) = core w"
  by (simp add: add_pick_def split: sum.splits prod.splits)

lemma core_add_copy: "core (fst (fst (add_copy rejects (w, kb)))) = core w"
  by (simp add: add_copy_def split: sum.splits prod.splits)

lemma core_report: "core (report_registration errors w) = core w"
  by (simp add: report_registration_def)

lemma core_register_hotkeys: "core (fst (register_hotkeys rejects (w, kb))) = core w"
proof -
  obtain w1 kb1 where 1: "remove_old_pick (w, kb) = (w1, kb1)" by (cases "remove_old_pick (w, kb)")
  obtain w2 kb2 where 2: "remove_old_copy (w1, kb1) = (w2, kb2)" by (cases "remove_old_copy (w1, kb1)")
  obtain w3 kb3 e3 where 3: "add_pick rejects (w2, kb2) = ((w3, kb3), e3)"
    by (cases "add_pick rejects (w2, kb2)") auto
  obtain w4 kb4 e4 where 4: "add_copy rejects (w3, kb3) = ((w4, kb4), e4)"
    by (cases "add_copy rejects (w3, kb3)") auto
  have "core w4 = core w"
    using core_remove_old_pick [of w kb] core_remove_old_copy [of w1 kb1]
      core_add_pick [of rejects w2 kb2] core_add_copy [of rejects w3 kb3]
    by (simp add: 1 2 3 4)
  then show ?thesis
    by (simp add: register_hotkeys_def 1 2 3 4 core_report)
qed

lemma core_open_settings: "core (fst (open_settings dialog rejects (w, kb))) = core w"
  by (simp add: open_settings_def Let_def core_register_hotkeys split: option.splits prod.splits)

lemma win_step:
  "win (step s (Pick position pixel)) = pick_under_cursor position pixel (win s)"
  "win (step s (Copy fault)) = fst (copy_selected_color fault (win s, clip s))"
  "win (step s Clear) = clear_history (win s)"
  "win (step s (Click i)) = click_row i (win s)"
  "win (step s (Key k)) = keyPressEvent k (win s)"
  "win (step s (Settings dialog rejects)) = fst (open_settings dialog rejects (win s, kbd s))"
  "win (step s (Register rejects)) = fst (register_hotkeys rejects (win s, kbd s))"
  by (simp_all split: prod.splits)

lemma window_inv_step:
  assumes "window_inv n (win s)"
  shows "window_inv n (win (step s e))"
proof (cases e)
  case (Pick position pixel)
  with assms show ?thesis by (simp only: win_step window_inv_pick)
next
  case (Copy fault)
  with assms show ?thesis
    using window_inv_core [OF core_copy [of fault "win s" "clip s"], of n]
    by (simp only: win_step)
next
  case Clear
  with assms show ?thesis by (simp only: win_step window_inv_clear)
next
  case (Click i)
  with assms show ?thesis by (simp only: win_step window_inv_click)
next
  case (Key k)
  with assms show ?thesis by (simp only: win_step window_inv_key)
next
  case (Settings dialog rejects)
  with assms show ?thesis
    using window_inv_core [OF core_open_settings [of dialog rejects "win s" "kbd s"], of n]
    by (simp only: win_step)
next
  case (Register rejects)
  with assms show ?thesis
    using window_inv_core [OF core_register_hotkeys [of rejects "win s" "kbd s"], of n]
    by (simp only: win_step)
qed

lemma current_rgb_core: "core w = core w' \<Longrightarrow> current_rgb w = current_rgb w'"
  by (simp add: core_def)

lemma current_rgb_step:
  "current_rgb (win (step s e)) =
     (case sample_of e of Some c \<Rightarrow> Some c | None \<Rightarrow> current_rgb (win s))"
proof (cases e)
  case (Pick position pixel)
  then show ?thesis using current_rgb_pick [of position pixel "win s"] by (simp only: win_step)
next
  case (Copy fault)
  then show ?thesis
    using current_rgb_core [OF core_copy [of fault "win s" "clip s"]]
    by (simp add: win_step del: step.simps)
next
  case Clear
  then show ?thesis by (simp add: current_rgb_clear)
next
  case (Click i)
  then show ?thesis
    by (simp add: click_row_def on_history_clicked_def Let_def split: sum.splits)
next
  case (Key k)
  then show ?thesis by (simp add: current_rgb_key)
next
  case (Settings dialog rejects)
  then show ?thesis
    using current_rgb_core [OF core_open_settings [of dialog rejects "win s" "kbd s"]]
    by (simp add: win_step del: step.simps)
next
  case (Register rejects)
  then show ?thesis
    using current_rgb_core [OF core_register_hotkeys [of rejects "win s" "kbd s"]]
    by (simp add: win_step del: step.simps)
qed

lemma last_sampled_snoc:
  "last_sampled (es @ [e]) = (case sample_of e of Some c \<Rightarrow> Some c | None \<Rightarrow> last_sampled es)"
  by (induction es) (auto split: option.splits)

lemma run_snoc: "run s (es @ [e]) = step (run s es) e"
  by (simp add: run_def)

lemma run_inv:
  "window_inv n (win (run (init_app n) es)) \<and>
   current_rgb (win (run (init_app n) es)) = last_sampled es"
proof (induction es rule: rev_induct)
  case Nil
  show ?case by (simp add: run_def init_app_def window_inv_init) (simp add: init_window_def)
next
  case (snoc e es)
  then show ?case
    by (simp add: run_snoc window_inv_step current_rgb_step last_sampled_snoc
        split: option.splits)
qed

section \<open>Copying and the hex string\<close>

lemma clip_step:
  "clip (step s (Pick position pixel)) = clip s"
  "clip (step s (Copy fault)) = snd (copy_selected_color fault (win s, clip s))"
  "clip (step s Clear) = clip s"
  "clip (step s (Click i)) = clip s"
  "clip (step s (Key k)) = clip s"
  "clip (step s (Settings dialog rejects)) = clip s"
  "clip (step s (Register rejects)) = clip s"
  by (simp_all split: prod.splits)

lemma win_step_sampled: "win (step s (sampled c)) = add c (win s)"
  by (simp add: sampled_def add_def)

lemma clip_step_sampled: "clip (step s (sampled c)) = clip s"
  by (simp add: sampled_def)

lemma sample_of_sampled: "sample_of (sampled c) = Some c"
  by (simp add: sampled_def)

lemma copy_ok:
  "copy_selected_color None (w, cb) =
     (case color_to_copy w of
        None \<Rightarrow> (w\<lparr>status := NothingToCopy\<rparr>, cb)
      | Some c \<Rightarrow> (w\<lparr>status := Copied (rgb_to_hex_tuple c)\<rparr>, Some (rgb_to_hex_tuple c)))"
  by (simp add: copy_selected_color_def pyperclip_copy_def Let_def split: option.splits)

lemma hex_digit_0: "hex_digit 0 = CHR ''0''"
  by (simp add: hex_digit_def)

lemma format_02X_byte:
  assumes "0 \<le> v" and "v < 256"
  shows "format_02X v = [hex_digit (nat v div 16), hex_digit (nat v mod 16)]"
proof (cases "nat v < 16")
  case True
  then have "hex_nat (nat v) = [hex_digit (nat v)]" by (subst hex_nat.simps) simp
  with True assms show ?thesis by (simp add: format_02X_def hex_digit_0)
next
  case False
  from assms have "nat v div 16 < 16" by (simp add: less_mult_imp_div_less nat_less_iff)
  then have "hex_nat (nat v div 16) = [hex_digit (nat v div 16)]" by (subst hex_nat.simps) simp
  with False have "hex_nat (nat v) = [hex_digit (nat v div 16), hex_digit (nat v mod 16)]"
    by (subst hex_nat.simps) simp
  with assms show ?thesis by (simp add: format_02X_def)
qed

lemma rgb_to_hex_valid:
  assumes "valid_rgb (r, g, b)"
  shows "rgb_to_hex_tuple (r, g, b) =
     [CHR ''#'', hex_digit (nat r div 16), hex_digit (nat r mod 16),
      hex_digit (nat g div 16), hex_digit (nat g mod 16),
      hex_digit (nat b div 16), hex_digit (nat b mod 16)]"
  using assms by (simp add: valid_rgb_def rgb_to_hex_tuple_def rgb_to_hex_def format_02X_byte)

lemma color_to_copy_inv:
  assumes "window_inv n w"
  shows "items (history w) \<noteq> [] \<Longrightarrow>
           color_to_copy w = Some (items (history w) ! nat (history_index w))"
    and "0 < n \<Longrightarrow> items (history w) = [] \<Longrightarrow> color_to_copy w = current_rgb w"
  using assms by (auto simp: window_inv_def color_to_copy_def split: option.splits)

lemma copy_after_clear:
  assumes "last_sampled es = Some c"
  shows "clip (step (step (run (init_app n) es) Clear) (Copy None)) = Some (rgb_to_hex_tuple c)"
    and "status (win (step (step (run (init_app n) es) Clear) (Copy None)))
           = Copied (rgb_to_hex_tuple c)"
proof -
  let ?s = "step (run (init_app n) es) Clear"
  have w: "win ?s = clear_history (win (run (init_app n) es))" by (simp only: win_step)
  have "current_rgb (win ?s) = Some c"
    using run_inv [of n es] assms by (simp add: w current_rgb_clear)
  then have c: "color_to_copy (win ?s) = Some c"
    by (simp add: color_to_copy_def w clear_history_def deque_clear_def)
  show "clip (step ?s (Copy None)) = Some (rgb_to_hex_tuple c)"
    using c by (simp only: clip_step copy_ok) simp
  show "status (win (step ?s (Copy None))) = Copied (rgb_to_hex_tuple c)"
    using c by (simp only: win_step copy_ok) simp
qed

section \<open>Re-registering the hotkeys\<close>

lemma remove_hotkey_eq:
  "remove_hotkey h kb =
     (if is_live h kb then None else Some KeyError,
      kb\<lparr>calls := calls kb @ [RemoveCall h],
         hotkeys := filter (\<lambda>e. fst e \<noteq> h) (hotkeys kb)\<rparr>)"
proof -
  have "\<not> is_live h kb \<Longrightarrow> filter (\<lambda>e. fst e \<noteq> h) (hotkeys kb) = hotkeys kb"
    by (auto simp: is_live_def filter_id_conv)
  then show ?thesis by (simp add: remove_hotkey_def Let_def)
qed

text \<open>The registrar after the two removals, and the handlers the window then holds.\<close>

lemma remove_old_pick_eq:
  "remove_old_pick (w, kb) =
     (case pick_handler w of
        None \<Rightarrow> (w, kb)
      | Some h \<Rightarrow>
          (if is_live h kb then w\<lparr>pick_handler := None\<rparr> else w,
           kb\<lparr>calls := calls kb @ [RemoveCall h],
              hotkeys := filter (\<lambda>e. fst e \<noteq> h) (hotkeys kb)\<rparr>))"
  by (simp add: remove_old_pick_def remove_hotkey_eq split: option.splits)

lemma remove_old_copy_eq:
  "remove_old_copy (w, kb) =
     (case copy_handler w of
        None \<Rightarrow> (w, kb)
      | Some h \<Rightarrow>
          (if is_live h kb then w\<lparr>copy_handler := None\<rparr> else w,
           kb\<lparr>calls := calls kb @ [RemoveCall h],
              hotkeys := filter (\<lambda>e. fst e \<noteq> h) (hotkeys kb)\<rparr>))"
  by (simp add: remove_old_copy_def remove_hotkey_eq split: option.splits)

lemma add_pick_eq:
  "add_pick rejects (w, kb) =
     (case rejects (pick_hotkey w) of
        Some e \<Rightarrow>
          ((w\<lparr>pick_handler := None\<rparr>,
            kb\<lparr>calls := calls kb @ [AddCall (pick_hotkey w) PickAction]\<rparr>), [PickRegFailed e])
      | None \<Rightarrow>
          ((w\<lparr>pick_handler := Some (next_handle kb)\<rparr>,
            kb\<lparr>calls := calls kb @ [AddCall (pick_hotkey w) PickAction],
               hotkeys := hotkeys kb @ [(next_handle kb, pick_hotkey w, PickAction)],
               next_handle := Suc (next_handle kb)\<rparr>), []))"
  by (simp add: add_pick_def add_hotkey_def Let_def split: option.splits)

lemma add_copy_eq:
  "add_copy rejects (w, kb) =
     (case rejects (copy_hotkey w) of
        Some e \<Rightarrow>
          ((w\<lparr>copy_handler := None\<rparr>,
            kb\<lparr>calls := calls kb @ [AddCall (copy_hotkey w) CopyAction]\<rparr>), [CopyRegFailed e])
      | None \<Rightarrow>
          ((w\<lparr>copy_handler := Some (next_handle kb)\<rparr>,
            kb\<lparr>calls := calls kb @ [AddCall (copy_hotkey w) CopyAction],
               hotkeys := hotkeys kb @ [(next_handle kb, copy_hotkey w, CopyAction)],
               next_handle := Suc (next_handle kb)\<rparr>), []))"
  by (simp add: add_copy_def add_hotkey_def Let_def split: option.splits)

lemmas register_unfold =
  register_hotkeys_def remove_old_pick_eq remove_old_copy_eq add_pick_eq add_copy_eq
  report_registration_def Let_def

lemma register_pick_handler:
  "pick_handler (fst (register_hotkeys rejects (w, kb))) =
     (case rejects (pick_hotkey w) of Some e \<Rightarrow> None | None \<Rightarrow> Some (next_handle kb))"
  by (simp add: register_unfold split: option.splits)

lemma register_copy_handler:
  "copy_handler (fst (register_hotkeys rejects (w, kb))) =
     (case rejects (copy_hotkey w) of
        Some e \<Rightarrow> None
      | None \<Rightarrow> Some (case rejects (pick_hotkey w) of
                        Some e \<Rightarrow> next_handle kb
                      | None \<Rightarrow> Suc (next_handle kb)))"
  by (simp add: register_unfold split: option.splits)

lemma register_hotkeys_live:
  "hotkeys (snd (register_hotkeys rejects (w, kb))) =
     filter (\<lambda>e. Some (fst e) \<noteq> pick_handler w \<and> Some (fst e) \<noteq> copy_handler w) (hotkeys kb)
     @ (case rejects (pick_hotkey w) of
          Some e \<Rightarrow> []
        | None \<Rightarrow> [(next_handle kb, pick_hotkey w, PickAction)])
     @ (case rejects (copy_hotkey w) of
          Some e \<Rightarrow> []
        | None \<Rightarrow> [(case rejects (pick_hotkey w) of
                        Some e \<Rightarrow> next_handle kb
                      | None \<Rightarrow> Suc (next_handle kb), copy_hotkey w, CopyAction)])"
  by (auto simp: register_unfold conj_commute split: option.splits intro: filter_cong)

lemma register_calls:
  "calls (snd (register_hotkeys rejects (w, kb))) =
     calls kb
     @ (case pick_handler w of Some h \<Rightarrow> [RemoveCall h] | None \<Rightarrow> [])
     @ (case copy_handler w of Some h \<Rightarrow> [RemoveCall h] | None \<Rightarrow> [])
     @ [AddCall (pick_hotkey w) PickAction, AddCall (copy_hotkey w) CopyAction]"
  by (simp add: register_unfold split: option.splits)

lemma register_report:
  "status (fst (register_hotkeys rejects (w, kb))) =
     (case (rejects (pick_hotkey w), rejects (copy_hotkey w)) of
        (None, None) \<Rightarrow> HotkeysRegistered (pick_hotkey w) (copy_hotkey w)
      | (Some e, None) \<Rightarrow> HotkeyErrors [PickRegFailed e]
      | (None, Some e) \<Rightarrow> HotkeyErrors [CopyRegFailed e]
      | (Some e, Some e') \<Rightarrow> HotkeyErrors [PickRegFailed e, CopyRegFailed e'])"
  "warnings (fst (register_hotkeys rejects (w, kb))) =
     warnings w @
     (case (rejects (pick_hotkey w), rejects (copy_hotkey w)) of
        (None, None) \<Rightarrow> []
      | (Some e, None) \<Rightarrow> [RegistrationWarning [PickRegFailed e]]
      | (None, Some e) \<Rightarrow> [RegistrationWarning [CopyRegFailed e]]
      | (Some e, Some e') \<Rightarrow> [RegistrationWarning [PickRegFailed e, CopyRegFailed e']])"
  by (simp_all add: register_unfold split: option.splits)

lemma register_old_not_live:
  assumes "pick_handler w = Some h \<or> copy_handler w = Some h" and "h < next_handle kb"
  shows "\<not> is_live h (snd (register_hotkeys rejects (w, kb)))"
  using assms
  by (auto simp: is_live_def register_hotkeys_live split: option.splits)

section \<open>The properties of the specification\<close>

text \<open>
  C4 (uniqueness): whatever colours are sampled, in whatever order, starting from the
  empty history of a new window, the history never holds the same colour twice.
\<close>

theorem history_never_repeats_a_colour:
  "distinct (items (history (add_all cs (init_window cap))))"
  using add_all_inv [of cs cap] by simp

text \<open>
  C5 (bounded size): after any sequence of successful samples the history holds at most
  \<open>maxlen\<close> colours, \<open>maxlen\<close> is still the value given at construction, and with the
  source's \<open>MAX_HISTORY\<close> that bound is 10.
\<close>

theorem history_within_capacity:
  "length (items (history (add_all cs (init_window cap)))) \<le> cap \<and>
   maxlen (history (add_all cs (init_window cap))) = cap \<and>
   length (items (history (add_all cs (init_window MAX_HISTORY)))) \<le> 10"
  using add_all_inv [of cs cap] add_all_inv [of cs MAX_HISTORY]
  by (simp add: MAX_HISTORY_def)

text \<open>
  C8 (atomicity on sampling failure): when \<open>pyautogui.position\<close> or \<open>pyautogui.pixel\<close>
  raises, \<open>pick_under_cursor\<close> returns the window it was given with only the status
  message replaced; the history, the index and the selected colour are as before.
\<close>

theorem pick_failure_changes_only_status:
  assumes "position = Inl e \<or> (position = Inr (x, y) \<and> pixel x y = Inl e)"
  shows "pick_under_cursor position pixel w = w\<lparr>status := PickFailed e\<rparr> \<and>
         history (pick_under_cursor position pixel w) = history w \<and>
         history_index (pick_under_cursor position pixel w) = history_index w \<and>
         selected_rgb (pick_under_cursor position pixel w) = selected_rgb w \<and>
         current_rgb (pick_under_cursor position pixel w) = current_rgb w"
  using assms by (auto simp: pick_failed_position pick_failed_pixel)

theorem pick_failure_changes_only_status_witness:
  "(let w = add (1, 2, 3) (init_window MAX_HISTORY);
        w' = pick_under_cursor (Inr (7, 9)) (\<lambda>x y. Inl (External ''no display'')) w
    in w' = w\<lparr>status := PickFailed (External ''no display'')\<rparr> \<and>
       items (history w') = [(1, 2, 3)] \<and> history_index w' = 0 \<and>
       selected_rgb w' = Some (1, 2, 3)) \<and>
   (let w = add (1, 2, 3) (init_window MAX_HISTORY);
        w' = pick_under_cursor (Inl (External ''no pointer'')) (\<lambda>x y. Inr (4, 5, 6)) w
    in w' = w\<lparr>status := PickFailed (External ''no pointer'')\<rparr> \<and>
       items (history w') = [(1, 2, 3)] \<and> history_index w' = 0 \<and>
       selected_rgb w' = Some (1, 2, 3))"
proof -
  let ?w = "add (1, 2, 3) (init_window MAX_HISTORY)"
  have h: "items (history ?w) = [(1, 2, 3)]" "history_index ?w = 0"
    by (simp_all add: add_fields history_add_items init_window_def deque_new_def MAX_HISTORY_def)
  have s: "selected_rgb ?w = Some (1, 2, 3)"
    by (simp add: add_def pick_ok_fields history_add_items init_window_def deque_new_def
        MAX_HISTORY_def)
  have a: "Inr (7, 9) = (Inl (External ''no display'') :: py_exception + int \<times> int) \<or>
           ((Inr (7, 9) :: py_exception + int \<times> int) = Inr (7, 9) \<and>
            (\<lambda>(x::int) (y::int). (Inl (External ''no display'') :: py_exception + rgb)) 7 9
              = Inl (External ''no display''))"
    by simp
  have b: "(Inl (External ''no pointer'') :: py_exception + int \<times> int) = Inl (External ''no pointer'') \<or>
           ((Inl (External ''no pointer'') :: py_exception + int \<times> int) = Inr (0, 0) \<and>
            (\<lambda>(x::int) (y::int). (Inr (4, 5, 6) :: py_exception + rgb)) 0 0
              = Inl (External ''no pointer''))"
    by simp
  show ?thesis
    using pick_failure_changes_only_status [OF a, of ?w]
          pick_failure_changes_only_status [OF b, of ?w] h s
    by (simp add: Let_def)
qed

text \<open>
  C6 (capacity eviction): sampling a colour that is not in a full history puts it at
  index 0 and drops exactly the last entry, every other entry moving one place down;
  with capacity 3, sampling distinct A, B, C, D in turn leaves \<open>[D, C, B]\<close>.
\<close>

theorem full_history_evicts_oldest:
  "(c \<notin> set (items (history w)) \<and> length (items (history w)) = maxlen (history w) \<and>
    0 < maxlen (history w) \<longrightarrow>
      items (history (add c w)) = c # butlast (items (history w)) \<and>
      length (items (history (add c w))) = maxlen (history w)) \<and>
   (distinct [A, B, C, D] \<longrightarrow>
      items (history (add_all [A, B, C, D] (init_window 3))) = [D, C, B])"
proof (intro conjI impI)
  assume a: "c \<notin> set (items (history w)) \<and> length (items (history w)) = maxlen (history w) \<and>
    0 < maxlen (history w)"
  then show "items (history (add c w)) = c # butlast (items (history w))"
    by (simp add: add_fields history_add_new_full)
  with a show "length (items (history (add c w))) = maxlen (history w)"
    by (cases "items (history w)") auto
next
  assume "distinct [A, B, C, D]"
  then show "items (history (add_all [A, B, C, D] (init_window 3))) = [D, C, B]"
    by (auto simp: add_all_def add_fields history_add_items history_add_maxlen
        init_window_def deque_new_def)
qed

theorem full_history_evicts_oldest_witness:
  "(let w = add_all [(1, 1, 1), (2, 2, 2), (3, 3, 3)] (init_window 3); c = (4, 4, 4)
    in c \<notin> set (items (history w)) \<and> length (items (history w)) = maxlen (history w) \<and>
       0 < maxlen (history w) \<and>
       items (history w) = [(3, 3, 3), (2, 2, 2), (1, 1, 1)] \<and>
       items (history (add c w)) = [(4, 4, 4), (3, 3, 3), (2, 2, 2)]) \<and>
   distinct [(1, 1, 1), (2, 2, 2), (3, 3, 3), (4, 4, 4 :: int)] \<and>
   items (history (add_all [(1, 1, 1), (2, 2, 2), (3, 3, 3), (4, 4, 4)] (init_window 3)))
     = [(4, 4, 4), (3, 3, 3), (2, 2, 2)]"
proof -
  let ?w = "add_all [(1, 1, 1), (2, 2, 2), (3, 3, 3)] (init_window 3)"
  have i: "items (history ?w) = [(3, 3, 3), (2, 2, 2), (1, 1, 1)]"
    by (simp add: add_all_def add_fields history_add_items history_add_maxlen
        init_window_def deque_new_def)
  have m: "maxlen (history ?w) = 3"
    by (simp add: add_all_def add_fields history_add_maxlen init_window_def deque_new_def)
  show ?thesis
    using full_history_evicts_oldest [of "(4, 4, 4)" ?w "(1, 1, 1)" "(2, 2, 2)" "(3, 3, 3)" "(4, 4, 4)"]
      i m
    by (simp add: Let_def)
qed

text \<open>
  C7 (move-to-front on duplicate): sampling a colour that is already at index \<open>i\<close> of
  the history takes it out of position \<open>i\<close> and puts it at index 0; the other entries
  keep their order, nothing is evicted, and the index is 0 with that colour selected.
  With capacity 3 and history \<open>[C, B, A]\<close>, sampling B gives \<open>[B, C, A]\<close> and index 0.
\<close>

theorem resampled_colour_moves_to_front:
  "(i < length (items (history w)) \<and> items (history w) ! i = c \<and>
    distinct (items (history w)) \<and> length (items (history w)) \<le> maxlen (history w) \<longrightarrow>
      items (history (add c w)) = c # take i (items (history w)) @ drop (Suc i) (items (history w)) \<and>
      length (items (history (add c w))) = length (items (history w)) \<and>
      set (items (history (add c w))) = set (items (history w)) \<and>
      history_index (add c w) = 0 \<and>
      selected_rgb (add c w) = Some c) \<and>
   (distinct [A, B, C] \<longrightarrow>
      items (history (add_all [A, B, C] (init_window 3))) = [C, B, A] \<and>
      items (history (add B (add_all [A, B, C] (init_window 3)))) = [B, C, A] \<and>
      history_index (add B (add_all [A, B, C] (init_window 3))) = 0)"
proof (intro conjI impI)
  assume a: "i < length (items (history w)) \<and> items (history w) ! i = c \<and>
    distinct (items (history w)) \<and> length (items (history w)) \<le> maxlen (history w)"
  let ?xs = "items (history w)"
  have split: "?xs = take i ?xs @ c # drop (Suc i) ?xs"
    using a id_take_nth_drop [of i ?xs] by simp
  from a show eq: "items (history (add c w)) = c # take i ?xs @ drop (Suc i) ?xs"
    using history_add_present [of i "history w"] by (simp add: add_fields)
  have "length (c # take i ?xs @ drop (Suc i) ?xs) = length (take i ?xs @ c # drop (Suc i) ?xs)"
    by simp
  with eq split show "length (items (history (add c w))) = length ?xs" by simp
  have "set (c # take i ?xs @ drop (Suc i) ?xs) = set (take i ?xs @ c # drop (Suc i) ?xs)"
    by auto
  with eq split show "set (items (history (add c w))) = set ?xs" by simp
  show "history_index (add c w) = 0" by (simp add: add_fields)
  from eq show "selected_rgb (add c w) = Some c"
    by (simp add: add_selected add_fields [symmetric])
next
  assume d: "distinct [A, B, C]"
  then show "items (history (add_all [A, B, C] (init_window 3))) = [C, B, A]"
    by (auto simp: add_all_def add_fields history_add_items history_add_maxlen
        init_window_def deque_new_def)
  from d show "items (history (add B (add_all [A, B, C] (init_window 3)))) = [B, C, A]"
    by (auto simp: add_all_def add_fields history_add_items history_add_maxlen
        init_window_def deque_new_def)
  show "history_index (add B (add_all [A, B, C] (init_window 3))) = 0"
    by (simp add: add_fields)
qed

theorem resampled_colour_moves_to_front_witness:
  "(let w = add_all [(1, 1, 1), (2, 2, 2), (3, 3, 3)] (init_window 3); c = (2, 2, 2)
    in (1::nat) < length (items (history w)) \<and> items (history w) ! 1 = c \<and>
       distinct (items (history w)) \<and> length (items (history w)) \<le> maxlen (history w) \<and>
       items (history w) = [(3, 3, 3), (2, 2, 2), (1, 1, 1)] \<and>
       items (history (add c w)) = [(2, 2, 2), (3, 3, 3), (1, 1, 1)] \<and>
       history_index (add c w) = 0 \<and> selected_rgb (add c w) = Some (2, 2, 2)) \<and>
   distinct [(1, 1, 1), (2, 2, 2), (3, 3, 3 :: int)]"
proof -
  let ?w = "add_all [(1, 1, 1), (2, 2, 2), (3, 3, 3)] (init_window 3)"
  have i: "items (history ?w) = [(3, 3, 3), (2, 2, 2), (1, 1, 1)]"
    by (simp add: add_all_def add_fields history_add_items history_add_maxlen
        init_window_def deque_new_def)
  have m: "maxlen (history ?w) = 3"
    by (simp add: add_all_def add_fields history_add_maxlen init_window_def deque_new_def)
  show ?thesis
    using resampled_colour_moves_to_front [of 1 ?w "(2, 2, 2)" "(1, 1, 1)" "(2, 2, 2)" "(3, 3, 3)"]
      i m
    by (simp add: Let_def)
qed

text \<open>
  C3 (cyclic step): on a non-empty history of size \<open>n\<close> with the index in \<open>[0, n-1]\<close>,
  the Down key is the step \<open>+1\<close> and the Up key the step \<open>-1\<close>: the index becomes
  \<open>(index + delta) mod n\<close>, which lies in \<open>[0, n-1]\<close>, and the colour at that index is
  selected. From index 0, \<open>n\<close> steps \<open>+1\<close> come back to 0 and one step \<open>-1\<close> lands on
  \<open>n-1\<close>. On an empty history a key press changes nothing.
\<close>

theorem step_wraps_cyclically:
  "(items (history w) \<noteq> [] \<and> 0 \<le> history_index w \<and>
    history_index w < int (length (items (history w))) \<longrightarrow>
      history_index (keyPressEvent Key_Down w)
        = (history_index w + 1) mod int (length (items (history w))) \<and>
      history_index (keyPressEvent Key_Up w)
        = (history_index w - 1) mod int (length (items (history w))) \<and>
      0 \<le> history_index (keyPressEvent Key_Down w) \<and>
      history_index (keyPressEvent Key_Down w) < int (length (items (history w))) \<and>
      0 \<le> history_index (keyPressEvent Key_Up w) \<and>
      history_index (keyPressEvent Key_Up w) < int (length (items (history w))) \<and>
      selected_rgb (keyPressEvent Key_Down w)
        = Some (items (history w) ! nat (history_index (keyPressEvent Key_Down w))) \<and>
      selected_rgb (keyPressEvent Key_Up w)
        = Some (items (history w) ! nat (history_index (keyPressEvent Key_Up w))) \<and>
      history (keyPressEvent Key_Down w) = history w \<and>
      history (keyPressEvent Key_Up w) = history w) \<and>
   (items (history w) \<noteq> [] \<and> history_index w = 0 \<longrightarrow>
      history_index ((keyPressEvent Key_Down ^^ length (items (history w))) w) = 0 \<and>
      history_index (keyPressEvent Key_Up w) = int (length (items (history w))) - 1) \<and>
   (items (history v) = [] \<longrightarrow> keyPressEvent k v = v)"
proof (intro conjI impI)
  assume a: "items (history w) \<noteq> [] \<and> history_index w = 0"
  then have n: "0 < length (items (history w))" by simp
  from a show "history_index ((keyPressEvent Key_Down ^^ length (items (history w))) w) = 0"
    using key_down_repeated [of w "length (items (history w))"] by simp
  from a n show "history_index (keyPressEvent Key_Up w) = int (length (items (history w))) - 1"
    by (simp add: key_up_fields zmod_minus1)
qed (simp_all add: key_down_fields key_up_fields key_empty)

theorem step_wraps_cyclically_witness:
  "(let w = add_all [(1, 1, 1), (2, 2, 2), (3, 3, 3)] (init_window MAX_HISTORY)
    in items (history w) = [(3, 3, 3), (2, 2, 2), (1, 1, 1)] \<and> history_index w = 0 \<and>
       history_index (keyPressEvent Key_Down w) = 1 \<and>
       selected_rgb (keyPressEvent Key_Down w) = Some (2, 2, 2) \<and>
       history_index (keyPressEvent Key_Up w) = 2 \<and>
       selected_rgb (keyPressEvent Key_Up w) = Some (1, 1, 1) \<and>
       history_index ((keyPressEvent Key_Down ^^ 3) w) = 0) \<and>
   items (history (init_window MAX_HISTORY)) = [] \<and>
   keyPressEvent Key_Up (init_window MAX_HISTORY) = init_window MAX_HISTORY"
proof -
  let ?w = "add_all [(1, 1, 1), (2, 2, 2), (3, 3, 3)] (init_window MAX_HISTORY)"
  have i: "items (history ?w) = [(3, 3, 3), (2, 2, 2), (1, 1, 1)]"
    by (simp add: add_all_def add_fields history_add_items history_add_maxlen
        init_window_def deque_new_def MAX_HISTORY_def)
  have x: "history_index ?w = 0"
    by (simp add: add_all_def add_fields)
  have e: "items (history (init_window MAX_HISTORY)) = []"
    by (simp add: init_window_def deque_new_def)
  show ?thesis
    using step_wraps_cyclically [of ?w "init_window MAX_HISTORY" Key_Up] i x e
    by (simp add: Let_def numeral_3_eq_3)
qed

text \<open>
  C1 (a click on a row selects it): not what \<open>on_history_clicked\<close> does. The row's text
  ends in \<open>(r, g, b)\<close> with a space after each comma, so the last word that \<open>split()\<close>
  returns holds one number, the unpacking into three raises, and the handler only reports
  an error. In every reachable window a click leaves the index and the selected colour
  as they were; with history \<open>[(4, 5, 6), (1, 2, 3)]\<close> and index 0, a click on row 1
  leaves the index at 0 and \<open>(4, 5, 6)\<close> selected.
\<close>

theorem click_on_row_selects_nothing:
  "core (click_row i (win (run (init_app n) es))) = core (win (run (init_app n) es)) \<and>
   items (history (win (run (init_app MAX_HISTORY) [sampled (1, 2, 3), sampled (4, 5, 6)])))
     = [(4, 5, 6), (1, 2, 3)] \<and>
   rows (list_view (win (run (init_app MAX_HISTORY) [sampled (1, 2, 3), sampled (4, 5, 6)])))
     = [''#040506    (4, 5, 6)'', ''#010203    (1, 2, 3)''] \<and>
   parse_item ''#010203    (1, 2, 3)'' = Inl ValueError \<and>
   history_index
     (win (step (run (init_app MAX_HISTORY) [sampled (1, 2, 3), sampled (4, 5, 6)]) (Click 1))) = 0 \<and>
   selected_rgb
     (win (step (run (init_app MAX_HISTORY) [sampled (1, 2, 3), sampled (4, 5, 6)]) (Click 1)))
     = Some (4, 5, 6) \<and>
   status
     (win (step (run (init_app MAX_HISTORY) [sampled (1, 2, 3), sampled (4, 5, 6)]) (Click 1)))
     = ClickFailed"
proof (intro conjI)
  have "window_inv n (win (run (init_app n) es))" using run_inv [of n es] by simp
  then have "rows (list_view (win (run (init_app n) es)))
               = map item_text (items (history (win (run (init_app n) es))))"
    by (simp add: window_inv_def)
  then show "core (click_row i (win (run (init_app n) es))) = core (win (run (init_app n) es))"
    by (rule core_click_failed)
qed code_simp+

text \<open>
  C10 (clear keeps the last sample): \<open>clear_history\<close> empties the history and the list,
  sets the index to 0 and the selected colour to \<open>None\<close>, and leaves \<open>current_rgb\<close> as it
  is. So after any events of which at least one was a successful sample, the last one
  of colour \<open>c\<close>, a clear followed by a copy puts the hex string of \<open>c\<close> on the clipboard:
  for 8-bit components that is \<open>#\<close> and the two upper-case hexadecimal digits of each
  of \<open>r\<close>, \<open>g\<close> and \<open>b\<close>, whatever colour was selected before the clear.
\<close>

theorem clear_keeps_last_sample_for_copy:
  "items (history (clear_history w)) = [] \<and>
   list_view (clear_history w) = \<lparr>rows = [], current_row = - 1\<rparr> \<and>
   history_index (clear_history w) = 0 \<and>
   selected_rgb (clear_history w) = None \<and>
   current_rgb (clear_history w) = current_rgb w \<and>
   (last_sampled es = Some c \<longrightarrow>
      items (history (win (step (run (init_app n) es) Clear))) = [] \<and>
      selected_rgb (win (step (run (init_app n) es) Clear)) = None \<and>
      clip (step (step (run (init_app n) es) Clear) (Copy None)) = Some (rgb_to_hex_tuple c) \<and>
      status (win (step (step (run (init_app n) es) Clear) (Copy None)))
        = Copied (rgb_to_hex_tuple c)) \<and>
   (last_sampled fs = Some (r, g, b) \<and> valid_rgb (r, g, b) \<longrightarrow>
      clip (step (step (run (init_app m) fs) Clear) (Copy None))
        = Some [CHR ''#'', hex_digit (nat r div 16), hex_digit (nat r mod 16),
                hex_digit (nat g div 16), hex_digit (nat g mod 16),
                hex_digit (nat b div 16), hex_digit (nat b mod 16)] \<and>
      status (win (step (step (run (init_app m) fs) Clear) (Copy None)))
        = Copied [CHR ''#'', hex_digit (nat r div 16), hex_digit (nat r mod 16),
                  hex_digit (nat g div 16), hex_digit (nat g mod 16),
                  hex_digit (nat b div 16), hex_digit (nat b mod 16)])"
proof (intro conjI impI)
  assume l: "last_sampled es = Some c"
  show "items (history (win (step (run (init_app n) es) Clear))) = []"
    by (simp add: clear_history_def deque_clear_def)
  show "selected_rgb (win (step (run (init_app n) es) Clear)) = None"
    by (simp add: clear_history_def)
  from l show "clip (step (step (run (init_app n) es) Clear) (Copy None)) = Some (rgb_to_hex_tuple c)"
    by (rule copy_after_clear)
  from l show "status (win (step (step (run (init_app n) es) Clear) (Copy None)))
        = Copied (rgb_to_hex_tuple c)"
    by (rule copy_after_clear)
next
  assume a: "last_sampled fs = Some (r, g, b) \<and> valid_rgb (r, g, b)"
  then have h: "rgb_to_hex_tuple (r, g, b) =
        [CHR ''#'', hex_digit (nat r div 16), hex_digit (nat r mod 16),
         hex_digit (nat g div 16), hex_digit (nat g mod 16),
         hex_digit (nat b div 16), hex_digit (nat b mod 16)]"
    by (simp add: rgb_to_hex_valid)
  from a h show "clip (step (step (run (init_app m) fs) Clear) (Copy None))
        = Some [CHR ''#'', hex_digit (nat r div 16), hex_digit (nat r mod 16),
                hex_digit (nat g div 16), hex_digit (nat g mod 16),
                hex_digit (nat b div 16), hex_digit (nat b mod 16)]"
    using copy_after_clear(1) [of fs "(r, g, b)" m] by simp
  from a h show "status (win (step (step (run (init_app m) fs) Clear) (Copy None)))
        = Copied [CHR ''#'', hex_digit (nat r div 16), hex_digit (nat r mod 16),
                  hex_digit (nat g div 16), hex_digit (nat g mod 16),
                  hex_digit (nat b div 16), hex_digit (nat b mod 16)]"
    using copy_after_clear(2) [of fs "(r, g, b)" m] by simp
qed (simp_all add: clear_history_def deque_clear_def list_clear_def)

theorem clear_keeps_last_sample_for_copy_witness:
  "last_sampled [sampled (1, 2, 3), Key Key_Up] = Some (1, 2, 3) \<and>
   items (history (win (run (init_app MAX_HISTORY) [sampled (1, 2, 3), Key Key_Up]))) = [(1, 2, 3)] \<and>
   items (history (win (step (run (init_app MAX_HISTORY) [sampled (1, 2, 3), Key Key_Up]) Clear))) = [] \<and>
   clip (step (step (run (init_app MAX_HISTORY) [sampled (1, 2, 3), Key Key_Up]) Clear) (Copy None))
     = Some ''#010203'' \<and>
   last_sampled [sampled (1, 2, 3), sampled (255, 0, 171), Key Key_Down] = Some (255, 0, 171) \<and>
   valid_rgb (255, 0, 171) \<and>
   selected_rgb (win (run (init_app MAX_HISTORY)
      [sampled (1, 2, 3), sampled (255, 0, 171), Key Key_Down])) = Some (1, 2, 3) \<and>
   clip (step (step (run (init_app MAX_HISTORY)
      [sampled (1, 2, 3), sampled (255, 0, 171), Key Key_Down]) Clear) (Copy None))
     = Some ''#FF00AB'' \<and>
   status (win (step (step (run (init_app MAX_HISTORY)
      [sampled (1, 2, 3), sampled (255, 0, 171), Key Key_Down]) Clear) (Copy None)))
     = Copied ''#FF00AB''"
proof -
  let ?es = "[sampled (1, 2, 3), Key Key_Up]"
  let ?fs = "[sampled (1, 2, 3), sampled (255, 0, 171), Key Key_Down]"
  have l: "last_sampled ?es = Some (1, 2, 3)"
    by (simp add: sample_of_sampled)
  have h: "rgb_to_hex_tuple (1, 2, 3) = ''#010203''" by code_simp
  have i: "items (history (win (run (init_app MAX_HISTORY) ?es))) = [(1, 2, 3)]"
    by code_simp
  have l': "last_sampled ?fs = Some (255, 0, 171)"
    by (simp add: sample_of_sampled)
  have v: "valid_rgb (255, 0, 171)" by (simp add: valid_rgb_def)
  have s: "selected_rgb (win (run (init_app MAX_HISTORY) ?fs)) = Some (1, 2, 3)" by code_simp
  have d: "[CHR ''#'', hex_digit (nat 255 div 16), hex_digit (nat 255 mod 16),
            hex_digit (nat 0 div 16), hex_digit (nat 0 mod 16),
            hex_digit (nat 171 div 16), hex_digit (nat 171 mod 16)] = ''#FF00AB''"
    by (simp add: hex_digit_def)
  show ?thesis
    using clear_keeps_last_sample_for_copy
            [of "init_window MAX_HISTORY" ?es "(1, 2, 3)" MAX_HISTORY ?fs 255 0 171 MAX_HISTORY]
          l h i l' v s d
    by simp
qed

text \<open>
  C2 (what copy writes), as the code has it. In every reachable window with a non-empty
  history the index is within the history, the selected colour is the entry at the
  index, and a copy that the clipboard accepts writes exactly the hex string of that
  entry. With an empty history (and a positive capacity) no colour is selected, and a
  copy writes the hex string of the last colour sampled if any sample ever succeeded;
  only if none did is the clipboard left as it was. The hex string of a colour with
  8-bit components is \<open>#\<close> and two upper-case hexadecimal digits per component.
\<close>

theorem copy_writes_selected_or_last_sample:
  "(items (history (win (run (init_app n) es))) \<noteq> [] \<longrightarrow>
      0 \<le> history_index (win (run (init_app n) es)) \<and>
      history_index (win (run (init_app n) es))
        < int (length (items (history (win (run (init_app n) es))))) \<and>
      selected_rgb (win (run (init_app n) es))
        = Some (items (history (win (run (init_app n) es)))
                  ! nat (history_index (win (run (init_app n) es)))) \<and>
      clip (step (run (init_app n) es) (Copy None))
        = Some (rgb_to_hex_tuple (items (history (win (run (init_app n) es)))
                  ! nat (history_index (win (run (init_app n) es)))))) \<and>
   (0 < m \<and> items (history (win (run (init_app m) fs))) = [] \<longrightarrow>
      selected_rgb (win (run (init_app m) fs)) = None \<and>
      clip (step (run (init_app m) fs) (Copy None))
        = (case last_sampled fs of
             Some c \<Rightarrow> Some (rgb_to_hex_tuple c)
           | None \<Rightarrow> clip (run (init_app m) fs)) \<and>
      status (win (step (run (init_app m) fs) (Copy None)))
        = (case last_sampled fs of
             Some c \<Rightarrow> Copied (rgb_to_hex_tuple c)
           | None \<Rightarrow> NothingToCopy)) \<and>
   (valid_rgb (r, g, b) \<longrightarrow>
      rgb_to_hex_tuple (r, g, b) =
        [CHR ''#'', hex_digit (nat r div 16), hex_digit (nat r mod 16),
         hex_digit (nat g div 16), hex_digit (nat g mod 16),
         hex_digit (nat b div 16), hex_digit (nat b mod 16)])"
proof (intro conjI impI)
  let ?s = "run (init_app n) es"
  assume ne: "items (history (win ?s)) \<noteq> []"
  have inv: "window_inv n (win ?s)" using run_inv [of n es] by simp
  from inv ne show "0 \<le> history_index (win ?s)"
    and "history_index (win ?s) < int (length (items (history (win ?s))))"
    and "selected_rgb (win ?s) = Some (items (history (win ?s)) ! nat (history_index (win ?s)))"
    by (simp_all add: window_inv_def)
  show "clip (step ?s (Copy None))
          = Some (rgb_to_hex_tuple (items (history (win ?s)) ! nat (history_index (win ?s))))"
    using color_to_copy_inv(1) [OF inv ne] by (simp only: clip_step copy_ok) simp
next
  let ?s = "run (init_app m) fs"
  assume a: "0 < m \<and> items (history (win ?s)) = []"
  have inv: "window_inv m (win ?s)" and cur: "current_rgb (win ?s) = last_sampled fs"
    using run_inv [of m fs] by simp_all
  from inv a show "selected_rgb (win ?s) = None" by (simp add: window_inv_def)
  have c: "color_to_copy (win ?s) = last_sampled fs"
    using color_to_copy_inv(2) [OF inv] a cur by simp
  show "clip (step ?s (Copy None))
          = (case last_sampled fs of Some c \<Rightarrow> Some (rgb_to_hex_tuple c) | None \<Rightarrow> clip ?s)"
    using c by (simp only: clip_step copy_ok) (simp split: option.splits)
  show "status (win (step ?s (Copy None)))
          = (case last_sampled fs of Some c \<Rightarrow> Copied (rgb_to_hex_tuple c) | None \<Rightarrow> NothingToCopy)"
    using c by (simp only: win_step copy_ok) (simp split: option.splits)
next
  assume "valid_rgb (r, g, b)"
  then show "rgb_to_hex_tuple (r, g, b) =
        [CHR ''#'', hex_digit (nat r div 16), hex_digit (nat r mod 16),
         hex_digit (nat g div 16), hex_digit (nat g mod 16),
         hex_digit (nat b div 16), hex_digit (nat b mod 16)]"
    by (rule rgb_to_hex_valid)
qed

theorem copy_writes_selected_or_last_sample_witness:
  "items (history (win (run (init_app MAX_HISTORY)
      [sampled (1, 2, 3), sampled (255, 0, 171), Key Key_Down])))
     = [(255, 0, 171), (1, 2, 3)] \<and>
   history_index (win (run (init_app MAX_HISTORY)
      [sampled (1, 2, 3), sampled (255, 0, 171), Key Key_Down])) = 1 \<and>
   clip (step (run (init_app MAX_HISTORY)
      [sampled (1, 2, 3), sampled (255, 0, 171), Key Key_Down]) (Copy None)) = Some ''#010203'' \<and>
   (0::nat) < MAX_HISTORY \<and>
   items (history (win (run (init_app MAX_HISTORY) [sampled (255, 0, 171), Clear]))) = [] \<and>
   selected_rgb (win (run (init_app MAX_HISTORY) [sampled (255, 0, 171), Clear])) = None \<and>
   clip (step (run (init_app MAX_HISTORY) [sampled (255, 0, 171), Clear]) (Copy None))
     = Some ''#FF00AB'' \<and>
   valid_rgb (255, 0, 171) \<and>
   rgb_to_hex_tuple (255, 0, 171) = ''#FF00AB''"
proof -
  let ?es = "[sampled (1, 2, 3), sampled (255, 0, 171), Key Key_Down]"
  let ?fs = "[sampled (255, 0, 171), Clear]"
  have i: "items (history (win (run (init_app MAX_HISTORY) ?es))) = [(255, 0, 171), (1, 2, 3)]"
    by code_simp
  have x: "history_index (win (run (init_app MAX_HISTORY) ?es)) = 1" by code_simp
  have h: "rgb_to_hex_tuple (1, 2, 3) = ''#010203''" by code_simp
  have m: "(0::nat) < MAX_HISTORY" by (simp add: MAX_HISTORY_def)
  have e: "items (history (win (run (init_app MAX_HISTORY) ?fs))) = []" by code_simp
  have l: "last_sampled ?fs = Some (255, 0, 171)" by (simp add: sample_of_sampled)
  have v: "valid_rgb (255, 0, 171)" by (simp add: valid_rgb_def)
  have d: "[CHR ''#'', hex_digit (nat 255 div 16), hex_digit (nat 255 mod 16),
            hex_digit (nat 0 div 16), hex_digit (nat 0 mod 16),
            hex_digit (nat 171 div 16), hex_digit (nat 171 mod 16)] = ''#FF00AB''"
    by (simp add: hex_digit_def)
  show ?thesis
    using copy_writes_selected_or_last_sample [of MAX_HISTORY ?es MAX_HISTORY ?fs 255 0 171]
          i x h m e l v d
    by simp
qed

theorem copy_after_clear_counterexample:
  "items (history (win (run (init_app MAX_HISTORY) [sampled (1, 2, 3), Clear]))) = [] \<and>
   selected_rgb (win (run (init_app MAX_HISTORY) [sampled (1, 2, 3), Clear])) = None \<and>
   clip (run (init_app MAX_HISTORY) [sampled (1, 2, 3), Clear]) = None \<and>
   clip (step (run (init_app MAX_HISTORY) [sampled (1, 2, 3), Clear]) (Copy None))
     = Some ''#010203''"
  by (intro conjI) code_simp+

text \<open>
  C9 (independent rebind outcomes): \<open>register_hotkeys\<close> first removes both old handlers,
  then attempts both registrations, then reports once. Whether an action ends bound
  depends only on whether the registrar accepts that action's own pattern: a rejected
  action ends with its handler \<open>None\<close>, an accepted one ends with a handler that is live
  for its pattern and callback, whatever happened to the other. No old handler is live
  afterwards, every removal precedes every registration in the registrar's calls, and
  the single report lists the failure of each rejected action.
\<close>

theorem rebind_outcomes_are_independent:
  "register_hotkeys rejects (w, kb) = (w', kb') \<longrightarrow>
     (pick_handler w' = None) = (rejects (pick_hotkey w) \<noteq> None) \<and>
     (copy_handler w' = None) = (rejects (copy_hotkey w) \<noteq> None) \<and>
     (rejects (pick_hotkey w) = None \<longrightarrow>
        (\<exists>h. pick_handler w' = Some h \<and> (h, pick_hotkey w, PickAction) \<in> set (hotkeys kb'))) \<and>
     (rejects (copy_hotkey w) = None \<longrightarrow>
        (\<exists>h. copy_handler w' = Some h \<and> (h, copy_hotkey w, CopyAction) \<in> set (hotkeys kb'))) \<and>
     (\<forall>h. (pick_handler w = Some h \<or> copy_handler w = Some h) \<and> h < next_handle kb \<longrightarrow>
        \<not> is_live h kb') \<and>
     calls kb' =
       calls kb
       @ (case pick_handler w of Some h \<Rightarrow> [RemoveCall h] | None \<Rightarrow> [])
       @ (case copy_handler w of Some h \<Rightarrow> [RemoveCall h] | None \<Rightarrow> [])
       @ [AddCall (pick_hotkey w) PickAction, AddCall (copy_hotkey w) CopyAction] \<and>
     status w' =
       (case (rejects (pick_hotkey w), rejects (copy_hotkey w)) of
          (None, None) \<Rightarrow> HotkeysRegistered (pick_hotkey w) (copy_hotkey w)
        | (Some e, None) \<Rightarrow> HotkeyErrors [PickRegFailed e]
        | (None, Some e) \<Rightarrow> HotkeyErrors [CopyRegFailed e]
        | (Some e, Some e') \<Rightarrow> HotkeyErrors [PickRegFailed e, CopyRegFailed e']) \<and>
     warnings w' =
       warnings w @
       (case (rejects (pick_hotkey w), rejects (copy_hotkey w)) of
          (None, None) \<Rightarrow> []
        | (Some e, None) \<Rightarrow> [RegistrationWarning [PickRegFailed e]]
        | (None, Some e) \<Rightarrow> [RegistrationWarning [CopyRegFailed e]]
        | (Some e, Some e') \<Rightarrow> [RegistrationWarning [PickRegFailed e, CopyRegFailed e']])"
  (is "_ \<longrightarrow> ?outcome")
proof (intro impI)
  assume r: "register_hotkeys rejects (w, kb) = (w', kb')"
  then have w': "w' = fst (register_hotkeys rejects (w, kb))"
    and kb': "kb' = snd (register_hotkeys rejects (w, kb))"
    by simp_all
  have 1: "(pick_handler w' = None) = (rejects (pick_hotkey w) \<noteq> None)"
    by (simp add: w' register_pick_handler split: option.splits)
  have 2: "(copy_handler w' = None) = (rejects (copy_hotkey w) \<noteq> None)"
    by (simp add: w' register_copy_handler split: option.splits)
  have 3: "rejects (pick_hotkey w) = None \<longrightarrow>
        (\<exists>h. pick_handler w' = Some h \<and> (h, pick_hotkey w, PickAction) \<in> set (hotkeys kb'))"
    by (simp add: w' kb' register_pick_handler register_hotkeys_live)
  have 4: "rejects (copy_hotkey w) = None \<longrightarrow>
        (\<exists>h. copy_handler w' = Some h \<and> (h, copy_hotkey w, CopyAction) \<in> set (hotkeys kb'))"
    by (simp add: w' kb' register_copy_handler register_hotkeys_live split: option.splits)
  have 5: "\<forall>h. (pick_handler w = Some h \<or> copy_handler w = Some h) \<and> h < next_handle kb \<longrightarrow>
        \<not> is_live h kb'"
    using register_old_not_live [of w _ kb rejects] by (simp add: kb')
  have 6: "calls kb' =
       calls kb
       @ (case pick_handler w of Some h \<Rightarrow> [RemoveCall h] | None \<Rightarrow> [])
       @ (case copy_handler w of Some h \<Rightarrow> [RemoveCall h] | None \<Rightarrow> [])
       @ [AddCall (pick_hotkey w) PickAction, AddCall (copy_hotkey w) CopyAction]"
    by (simp only: kb' register_calls)
  have 7: "status w' =
       (case (rejects (pick_hotkey w), rejects (copy_hotkey w)) of
          (None, None) \<Rightarrow> HotkeysRegistered (pick_hotkey w) (copy_hotkey w)
        | (Some e, None) \<Rightarrow> HotkeyErrors [PickRegFailed e]
        | (None, Some e) \<Rightarrow> HotkeyErrors [CopyRegFailed e]
        | (Some e, Some e') \<Rightarrow> HotkeyErrors [PickRegFailed e, CopyRegFailed e'])"
    by (simp only: w' register_report)
  have 8: "warnings w' =
       warnings w @
       (case (rejects (pick_hotkey w), rejects (copy_hotkey w)) of
          (None, None) \<Rightarrow> []
        | (Some e, None) \<Rightarrow> [RegistrationWarning [PickRegFailed e]]
        | (None, Some e) \<Rightarrow> [RegistrationWarning [CopyRegFailed e]]
        | (Some e, Some e') \<Rightarrow> [RegistrationWarning [PickRegFailed e, CopyRegFailed e']])"
    by (simp only: w' register_report)
  from 1 2 3 4 5 6 7 8 show ?outcome
    by blast
qed


theorem rebind_outcomes_are_independent_witness:
  "(let rejects = (\<lambda>p. if p = ''ctrl+'' then Some ValueError else None);
        w = (init_window MAX_HISTORY)
              \<lparr>pick_hotkey := ''ctrl+'', copy_hotkey := ''ctrl+shift+c'',
               pick_handler := Some 1, copy_handler := Some 2\<rparr>;
        kb = \<lparr>hotkeys = [(1, ''e'', PickAction), (2, ''ctrl+c'', CopyAction)],
              next_handle = 3, calls = []\<rparr>;
        r = register_hotkeys rejects (w, kb)
    in rejects (pick_hotkey w) = Some ValueError \<and>
       rejects (copy_hotkey w) = None \<and>
       pick_handler (fst r) = None \<and>
       copy_handler (fst r) = Some 3 \<and>
       hotkeys (snd r) = [(3, ''ctrl+shift+c'', CopyAction)] \<and>
       \<not> is_live 1 (snd r) \<and> \<not> is_live 2 (snd r) \<and>
       calls (snd r) = [RemoveCall 1, RemoveCall 2, AddCall ''ctrl+'' PickAction,
                        AddCall ''ctrl+shift+c'' CopyAction] \<and>
       status (fst r) = HotkeyErrors [PickRegFailed ValueError] \<and>
       warnings (fst r) = [RegistrationWarning [PickRegFailed ValueError]])"
proof -
  let ?rejects = "\<lambda>p. if p = ''ctrl+'' then Some ValueError else None"
  let ?w = "(init_window MAX_HISTORY)
              \<lparr>pick_hotkey := ''ctrl+'', copy_hotkey := ''ctrl+shift+c'',
               pick_handler := Some 1, copy_handler := Some 2\<rparr>"
  let ?kb = "\<lparr>hotkeys = [(1, ''e'', PickAction), (2, ''ctrl+c'', CopyAction)],
              next_handle = 3, calls = []\<rparr>"
  let ?r = "register_hotkeys ?rejects (?w, ?kb)"
  have r: "register_hotkeys ?rejects (?w, ?kb) = (fst ?r, snd ?r)" by simp
  have c: "copy_handler (fst ?r) = Some 3" by code_simp
  have h: "hotkeys (snd ?r) = [(3, ''ctrl+shift+c'', CopyAction)]" by code_simp
  have f: "pick_hotkey ?w = ''ctrl+''" "copy_hotkey ?w = ''ctrl+shift+c''"
     "pick_handler ?w = Some 1" "copy_handler ?w = Some 2" "next_handle ?kb = 3" "calls ?kb = []"
     "warnings ?w = []"
    by (simp_all add: init_window_def)
  have l: "\<not> is_live 1 (snd ?r)" "\<not> is_live 2 (snd ?r)"
    using rebind_outcomes_are_independent [of ?rejects ?w ?kb "fst ?r" "snd ?r"] r f
    by auto
  show ?thesis
    using rebind_outcomes_are_independent [of ?rejects ?w ?kb "fst ?r" "snd ?r"] r c h f l
    unfolding Let_def by (simp del: fst_conv snd_conv)
qed

end
